theory Spec2Isabelle
  imports Main "HOL-Library.Sublist"
begin

section \<open>Catalog lookup utilities of \<^verbatim>\<open>src/internal/utils.ts\<close>\<close>

text \<open>
  The module resolves a resource id (and optionally a version) to an \<^verbatim>\<open>index.md\<close>
  file of a catalog directory, checks whether a version exists, removes duplicate message
  references and copies a directory through a staging directory.

  JavaScript strings are modelled as \<^typ>\<open>string\<close>; a \<^typ>\<open>char\<close> stands for one UTF-16
  code unit below 256.  Promises are modelled by their outcome: a rejected promise (a thrown
  exception) is \<open>Inl\<close> of an \<open>error\<close>, a fulfilled one is \<open>Inr\<close> of its value.
\<close>

subsection \<open>MessageDeduper: \<^verbatim>\<open>uniqueMessages\<close>\<close>

text \<open>The objects \<^verbatim>\<open>{ id: string; version: string }\<close> of the source.\<close>

record message =
  id_m :: string
  version_m :: string

text \<open>The template literal \<^verbatim>\<open>`${message.id}-${message.version}`\<close>.\<close>

definition message_key :: "message \<Rightarrow> string" where
  "message_key message = id_m message @ ''-'' @ version_m message"

text \<open>
  The callback of \<^verbatim>\<open>messages.filter\<close> reads and updates the set \<^verbatim>\<open>uniqueSet\<close>; the
  model passes the set along the list, left to right, as \<^verbatim>\<open>Array.prototype.filter\<close>
  visits the elements.
\<close>

fun uniqueMessages_filter :: "string set \<Rightarrow> message list \<Rightarrow> message list" where
  "uniqueMessages_filter uniqueSet [] = []"
| "uniqueMessages_filter uniqueSet (message # messages) =
     (let key = message_key message in
      if key \<notin> uniqueSet
      then message # uniqueMessages_filter (insert key uniqueSet) messages
      else uniqueMessages_filter uniqueSet messages)"

definition uniqueMessages :: "message list \<Rightarrow> message list" where
  "uniqueMessages messages = uniqueMessages_filter {} messages"

subsection \<open>JavaScript regular expressions\<close>

text \<open>
  \<^verbatim>\<open>searchFilesForId\<close> interpolates its arguments into the source text of two regular
  expressions and hands the text to \<^verbatim>\<open>new RegExp(source, 'm')\<close>.  Since the arguments are
  not escaped, what they mean is decided by the pattern parser, so the model parses the
  source text.

  The abstract syntax covers the constructs the two templates use and the common ones an
  argument can add: literal characters, \<^verbatim>\<open>.\<close>, the class escapes \<^verbatim>\<open>\s \S \d \D \w \W\<close>,
  bracketed classes, groups, alternation, the quantifiers \<^verbatim>\<open>* + ?\<close> (greedy or lazy) and
  the assertions \<^verbatim>\<open>^\<close> and \<^verbatim>\<open>$\<close>.
\<close>

datatype escape_class = Space | Digit | Word

datatype class_item =
  ClassChar char
| ClassRange char char
| ClassEscape bool escape_class

datatype regex =
  Eps
| Chr char
| Dot
| Class bool "class_item list"
| Bol
| Eol
| Seq regex regex
| Alt regex regex
| Star regex
| Plus regex
| Opt regex

text \<open>
  Character tests, on code units below 256.  A line terminator is LF or CR; white space
  (\<^verbatim>\<open>\s\<close>) is TAB, LF, VT, FF, CR, SP and NBSP; a word character (\<^verbatim>\<open>\w\<close>) is an ASCII
  letter, a digit or the underscore.
\<close>

definition is_line_terminator :: "char \<Rightarrow> bool" where
  "is_line_terminator c = (c = CHR 0x0A \<or> c = CHR 0x0D)"

definition is_space :: "char \<Rightarrow> bool" where
  "is_space c = (c \<in> set [CHR 0x09, CHR 0x0A, CHR 0x0B, CHR 0x0C, CHR 0x0D, CHR 0x20, CHR 0xA0])"

definition is_digit :: "char \<Rightarrow> bool" where
  "is_digit c = (48 \<le> (of_char c :: nat) \<and> (of_char c :: nat) \<le> 57)"

definition is_word :: "char \<Rightarrow> bool" where
  "is_word c = ((97 \<le> (of_char c :: nat) \<and> (of_char c :: nat) \<le> 122)
     \<or> (65 \<le> (of_char c :: nat) \<and> (of_char c :: nat) \<le> 90)
     \<or> is_digit c \<or> c = CHR ''_'')"

fun in_escape_class :: "escape_class \<Rightarrow> char \<Rightarrow> bool" where
  "in_escape_class Space c = is_space c"
| "in_escape_class Digit c = is_digit c"
| "in_escape_class Word c = is_word c"

fun item_matches :: "class_item \<Rightarrow> char \<Rightarrow> bool" where
  "item_matches (ClassChar a) c = (c = a)"
| "item_matches (ClassRange a b) c =
     ((of_char a :: nat) \<le> of_char c \<and> (of_char c :: nat) \<le> of_char b)"
| "item_matches (ClassEscape positive e) c = (in_escape_class e c = positive)"

text \<open>
  A position in the subject string: the character before it (none at the start) and the
  rest of the string.  \<open>rmatch r p\<close> lists the positions at which a match of \<open>r\<close> that
  starts at \<open>p\<close> can end.  Without the \<^verbatim>\<open>s\<close> flag the dot does not match a line terminator;
  with the \<^verbatim>\<open>m\<close> flag \<^verbatim>\<open>^\<close> holds at the start of the input and after a line terminator,
  and \<^verbatim>\<open>$\<close> at the end of the input and before a line terminator.  An iteration of a
  quantifier that consumes nothing is rejected, as in ECMAScript, so a star over a string of
  \<open>n\<close> characters iterates at most \<open>n\<close> times.
\<close>

type_synonym position = "char option \<times> string"

fun star_closure :: "nat \<Rightarrow> (position \<Rightarrow> position list) \<Rightarrow> position \<Rightarrow> position list" where
  "star_closure 0 f p = [p]"
| "star_closure (Suc n) f p =
     p # concat (map (star_closure n f) (filter (\<lambda>q. length (snd q) < length (snd p)) (f p)))"

primrec rmatch :: "regex \<Rightarrow> position \<Rightarrow> position list" where
  "rmatch Eps p = [p]"
| "rmatch (Chr c) p =
     (case snd p of [] \<Rightarrow> [] | x # xs \<Rightarrow> if x = c then [(Some x, xs)] else [])"
| "rmatch Dot p =
     (case snd p of [] \<Rightarrow> [] | x # xs \<Rightarrow> if is_line_terminator x then [] else [(Some x, xs)])"
| "rmatch (Class negated items) p =
     (case snd p of [] \<Rightarrow> []
      | x # xs \<Rightarrow> if list_ex (\<lambda>i. item_matches i x) items \<noteq> negated then [(Some x, xs)] else [])"
| "rmatch Bol p =
     (case fst p of None \<Rightarrow> [p] | Some x \<Rightarrow> if is_line_terminator x then [p] else [])"
| "rmatch Eol p =
     (case snd p of [] \<Rightarrow> [p] | x # xs \<Rightarrow> if is_line_terminator x then [p] else [])"
| "rmatch (Seq a b) p = remdups (concat (map (rmatch b) (rmatch a p)))"
| "rmatch (Alt a b) p = rmatch a p @ rmatch b p"
| "rmatch (Star a) p = remdups (star_closure (length (snd p)) (rmatch a) p)"
| "rmatch (Plus a) p =
     remdups (concat (map (\<lambda>q. star_closure (length (snd q)) (rmatch a) q) (rmatch a p)))"
| "rmatch (Opt a) p = p # rmatch a p"

fun positions :: "char option \<Rightarrow> string \<Rightarrow> position list" where
  "positions previous [] = [(previous, [])]"
| "positions previous (c # cs) = (previous, c # cs) # positions (Some c) cs"

text \<open>
  \<^verbatim>\<open>content.match(regex)\<close> for a regex without the \<^verbatim>\<open>g\<close> flag is truthy iff the pattern
  matches at some start position of the content.
\<close>

definition regex_test :: "regex \<Rightarrow> string \<Rightarrow> bool" where
  "regex_test r content = list_ex (\<lambda>p. rmatch r p \<noteq> []) (positions None content)"

text \<open>
  The pattern parser reads the source left to right.  \<open>InvalidPattern\<close> is the
  \<^verbatim>\<open>SyntaxError\<close> of \<^verbatim>\<open>new RegExp\<close>: an unmatched parenthesis, an unterminated class or
  group, a quantifier with nothing to repeat, a class range out of order, a trailing
  backslash.  \<open>OutsideFragment\<close> marks a pattern with syntax this model does not
  interpret (braces, look-around and named groups, back references, \<^verbatim>\<open>\b\<close>, numeric and
  letter escapes other than the ones above); nothing is stated about such a pattern.
\<close>

datatype regexp_failure = InvalidPattern | OutsideFragment

datatype class_atom = AChar char | ADash | AEsc bool escape_class

datatype repeatable = NothingToRepeat | AfterAtom | AfterQuantifier

datatype mode =
  Normal | AfterBackslash | AfterParen | AfterParenQuery | AfterBracket | InClass
| InClassBackslash

text \<open>
  The parser state: the unfinished enclosing groups (each with its finished alternatives
  and the terms of its current alternative, latest first), the same for the innermost
  group, whether a quantifier may follow, and the atoms of the class being read.
\<close>

record parser =
  enclosing :: "(regex list \<times> regex list) list"
  alternatives :: "regex list"
  terms :: "regex list"
  repeat :: repeatable
  mode :: mode
  negated :: bool
  atoms :: "class_atom list"

definition seq_of :: "regex list \<Rightarrow> regex" where
  "seq_of ts = foldl (\<lambda>r t. Seq t r) Eps ts"

definition alt_of :: "regex list \<Rightarrow> regex \<Rightarrow> regex" where
  "alt_of as r = foldl (\<lambda>r a. Alt a r) r as"

definition group_of :: "parser \<Rightarrow> regex" where
  "group_of st = alt_of (alternatives st) (seq_of (terms st))"

definition add_atom :: "regex \<Rightarrow> parser \<Rightarrow> regexp_failure + parser" where
  "add_atom r st = Inr (st\<lparr>terms := r # terms st, repeat := AfterAtom, mode := Normal\<rparr>)"

definition add_assertion :: "regex \<Rightarrow> parser \<Rightarrow> regexp_failure + parser" where
  "add_assertion r st = Inr (st\<lparr>terms := r # terms st, repeat := NothingToRepeat\<rparr>)"

definition quantify :: "(regex \<Rightarrow> regex) \<Rightarrow> parser \<Rightarrow> regexp_failure + parser" where
  "quantify q st =
     (case terms st of
        [] \<Rightarrow> Inl InvalidPattern
      | t # ts \<Rightarrow>
          if repeat st = AfterAtom
          then Inr (st\<lparr>terms := q t # ts, repeat := AfterQuantifier\<rparr>)
          else Inl InvalidPattern)"

definition open_group :: "parser \<Rightarrow> parser" where
  "open_group st =
     st\<lparr>enclosing := (alternatives st, terms st) # enclosing st, alternatives := [],
        terms := [], repeat := NothingToRepeat, mode := Normal\<rparr>"

definition close_group :: "parser \<Rightarrow> regexp_failure + parser" where
  "close_group st =
     (case enclosing st of
        [] \<Rightarrow> Inl InvalidPattern
      | (as, ts) # outer \<Rightarrow>
          Inr (st\<lparr>enclosing := outer, alternatives := as, terms := group_of st # ts,
                  repeat := AfterAtom\<rparr>))"

definition control_escape :: "char \<Rightarrow> char option" where
  "control_escape c =
     (if c = CHR ''t'' then Some (CHR 0x09)
      else if c = CHR ''n'' then Some (CHR 0x0A)
      else if c = CHR ''v'' then Some (CHR 0x0B)
      else if c = CHR ''f'' then Some (CHR 0x0C)
      else if c = CHR ''r'' then Some (CHR 0x0D)
      else None)"

definition class_escape :: "char \<Rightarrow> (bool \<times> escape_class) option" where
  "class_escape c =
     (if c = CHR ''s'' then Some (True, Space)
      else if c = CHR ''S'' then Some (False, Space)
      else if c = CHR ''d'' then Some (True, Digit)
      else if c = CHR ''D'' then Some (False, Digit)
      else if c = CHR ''w'' then Some (True, Word)
      else if c = CHR ''W'' then Some (False, Word)
      else None)"

text \<open>One character outside a class and outside an escape.  \<open>CHR 0x5C\<close> is the backslash.\<close>

definition step_normal :: "parser \<Rightarrow> char \<Rightarrow> regexp_failure + parser" where
  "step_normal st c =
     (if c = CHR 0x5C then Inr (st\<lparr>mode := AfterBackslash\<rparr>)
      else if c = CHR ''('' then Inr (st\<lparr>mode := AfterParen\<rparr>)
      else if c = CHR '')'' then close_group st
      else if c = CHR ''['' then Inr (st\<lparr>mode := AfterBracket, negated := False, atoms := []\<rparr>)
      else if c = CHR ''|'' then
        Inr (st\<lparr>alternatives := seq_of (terms st) # alternatives st, terms := [],
                repeat := NothingToRepeat\<rparr>)
      else if c = CHR ''*'' then quantify Star st
      else if c = CHR ''+'' then quantify Plus st
      else if c = CHR ''?'' then
        (if repeat st = AfterQuantifier then Inr (st\<lparr>repeat := NothingToRepeat\<rparr>)
         else quantify Opt st)
      else if c = CHR ''^'' then add_assertion Bol st
      else if c = CHR ''$'' then add_assertion Eol st
      else if c = CHR ''.'' then add_atom Dot st
      else if c = CHR ''{'' \<or> c = CHR ''}'' then Inl OutsideFragment
      else add_atom (Chr c) st)"

text \<open>The character after a backslash, outside a class.\<close>

definition step_escape :: "parser \<Rightarrow> char \<Rightarrow> regexp_failure + parser" where
  "step_escape st c =
     (case class_escape c of
        Some (positive, e) \<Rightarrow> add_atom (Class False [ClassEscape positive e]) st
      | None \<Rightarrow>
          (case control_escape c of
             Some x \<Rightarrow> add_atom (Chr x) st
           | None \<Rightarrow> if is_word c then Inl OutsideFragment else add_atom (Chr c) st))"

fun atom_char :: "class_atom \<Rightarrow> char option" where
  "atom_char (AChar c) = Some c"
| "atom_char ADash = Some (CHR ''-'')"
| "atom_char (AEsc positive e) = None"

fun atom_item :: "class_atom \<Rightarrow> class_item" where
  "atom_item (AChar c) = ClassChar c"
| "atom_item ADash = ClassChar (CHR ''-'')"
| "atom_item (AEsc positive e) = ClassEscape positive e"

text \<open>
  The atoms of a class, in source order: an atom, an unescaped dash and another atom form a
  range (a union with the dash when one side is a class escape), and the range of two
  characters must be in order.
\<close>

fun class_items :: "class_atom list \<Rightarrow> class_item list option" where
  "class_items (a # ADash # b # rest) =
     (case (atom_char a, atom_char b) of
        (Some x, Some y) \<Rightarrow>
          if (of_char y :: nat) < of_char x then None
          else map_option (\<lambda>items. ClassRange x y # items) (class_items rest)
      | _ \<Rightarrow>
          map_option (\<lambda>items. atom_item a # ClassChar (CHR ''-'') # atom_item b # items)
            (class_items rest))"
| "class_items (a # rest) = map_option (\<lambda>items. atom_item a # items) (class_items rest)"
| "class_items [] = Some []"

definition step_class :: "parser \<Rightarrow> char \<Rightarrow> regexp_failure + parser" where
  "step_class st c =
     (if c = CHR '']'' then
        (case class_items (rev (atoms st)) of
           None \<Rightarrow> Inl InvalidPattern
         | Some items \<Rightarrow> add_atom (Class (negated st) items) st)
      else if c = CHR 0x5C then Inr (st\<lparr>mode := InClassBackslash\<rparr>)
      else if c = CHR ''-'' then Inr (st\<lparr>atoms := ADash # atoms st\<rparr>)
      else Inr (st\<lparr>atoms := AChar c # atoms st\<rparr>))"

definition step_class_escape :: "parser \<Rightarrow> char \<Rightarrow> regexp_failure + parser" where
  "step_class_escape st c =
     (case class_escape c of
        Some (positive, e) \<Rightarrow> Inr (st\<lparr>atoms := AEsc positive e # atoms st, mode := InClass\<rparr>)
      | None \<Rightarrow>
          (case control_escape c of
             Some x \<Rightarrow> Inr (st\<lparr>atoms := AChar x # atoms st, mode := InClass\<rparr>)
           | None \<Rightarrow>
               if c = CHR ''b'' then Inr (st\<lparr>atoms := AChar (CHR 0x08) # atoms st, mode := InClass\<rparr>)
               else if is_word c then Inl OutsideFragment
               else Inr (st\<lparr>atoms := AChar c # atoms st, mode := InClass\<rparr>)))"

definition step :: "parser \<Rightarrow> char \<Rightarrow> regexp_failure + parser" where
  "step st c =
     (case mode st of
        Normal \<Rightarrow> step_normal st c
      | AfterBackslash \<Rightarrow> step_escape st c
      | AfterParen \<Rightarrow>
          if c = CHR ''?'' then Inr (st\<lparr>mode := AfterParenQuery\<rparr>)
          else step_normal (open_group st) c
      | AfterParenQuery \<Rightarrow> if c = CHR '':'' then Inr (open_group st) else Inl OutsideFragment
      | AfterBracket \<Rightarrow>
          if c = CHR ''^'' then Inr (st\<lparr>negated := True, mode := InClass\<rparr>)
          else step_class (st\<lparr>mode := InClass\<rparr>) c
      | InClass \<Rightarrow> step_class st c
      | InClassBackslash \<Rightarrow> step_class_escape st c)"

fun parse_chars :: "parser \<Rightarrow> string \<Rightarrow> regexp_failure + parser" where
  "parse_chars st [] = Inr st"
| "parse_chars st (c # cs) =
     (case step st c of Inl e \<Rightarrow> Inl e | Inr st' \<Rightarrow> parse_chars st' cs)"

definition initial :: parser where
  "initial = \<lparr>enclosing = [], alternatives = [], terms = [], repeat = NothingToRepeat,
     mode = Normal, negated = False, atoms = []\<rparr>"

text \<open>\<^verbatim>\<open>new RegExp(source, 'm')\<close>.\<close>

definition RegExp :: "string \<Rightarrow> regexp_failure + regex" where
  "RegExp source =
     (case parse_chars initial source of
        Inl e \<Rightarrow> Inl e
      | Inr st \<Rightarrow>
          if mode st = Normal \<and> enclosing st = [] then Inr (group_of st)
          else Inl InvalidPattern)"

subsection \<open>Errors, values and the platform\<close>

text \<open>
  What a call can throw.  \<open>Error\<close> carries the message of a \<^verbatim>\<open>new Error(message)\<close> of the
  module itself; \<open>Thrown\<close> is an exception of a library or of the file system, with its
  rendering as a string; \<open>SyntaxError\<close> is thrown by \<^verbatim>\<open>new RegExp\<close> and \<open>TypeError\<close>
  by a method call on a value that has no such method.  \<open>Unmodelled\<close> is not an outcome of
  the program: it marks an input on which this model does not say what the program does.
\<close>

datatype error =
  Error string
| Thrown string
| SyntaxError
| TypeError
| Unmodelled

text \<open>
  The values a front-matter field can hold, as far as the module tells them apart: a
  string, a missing field, or a YAML scalar of another type.
\<close>

datatype jsvalue =
  JString string
| JUndefined
| JNull
| JBool bool
| JNumber int

text \<open>
  The \<^verbatim>\<open>data\<close> object of \<^verbatim>\<open>matter.read(path)\<close>, with the two fields the catalog uses.
\<close>

record data =
  id_d :: jsvalue
  version_d :: jsvalue

text \<open>
  The external collaborators, as parameters of the model: the \<^verbatim>\<open>glob\<close> package (called
  with a pattern and its \<^verbatim>\<open>ignore\<close> option), the files \<^verbatim>\<open>fs.readFile(file, 'utf-8')\<close>
  can read, \<^verbatim>\<open>matter.read\<close> of gray-matter, \<^verbatim>\<open>validRange\<close>, \<^verbatim>\<open>valid\<close> and
  \<^verbatim>\<open>satisfies\<close> of semver (\<open>None\<close> is \<^verbatim>\<open>null\<close>), and \<^verbatim>\<open>String.prototype.localeCompare\<close>
  of the host's locale.  A call that throws returns \<open>Inl\<close> of the rendering of what it
  threw.
\<close>

record platform =
  glob :: "string \<Rightarrow> string \<Rightarrow> string + string list"
  contents :: "string \<Rightarrow> string + string"
  matter_read :: "string \<Rightarrow> string + data"
  validRange :: "string \<Rightarrow> string option"
  valid :: "string \<Rightarrow> string option"
  satisfies :: "jsvalue \<Rightarrow> string \<Rightarrow> string + bool"
  localeCompare :: "string \<Rightarrow> string \<Rightarrow> int"

text \<open>
  \<^verbatim>\<open>fs.readFile(file, 'utf-8')\<close>: the empty path names no file, so reading it is rejected
  on every file system.
\<close>

definition readFile :: "platform \<Rightarrow> string \<Rightarrow> error + string" where
  "readFile env file =
     (if file = [] then Inl (Thrown ''ENOENT'')
      else case contents env file of Inl e \<Rightarrow> Inl (Thrown e) | Inr content \<Rightarrow> Inr content)"

text \<open>
  Truthiness of an optional string argument, as \<^verbatim>\<open>if (!version)\<close> and \<^verbatim>\<open>version &&\<close>
  test it: \<^verbatim>\<open>undefined\<close>, \<^verbatim>\<open>null\<close> and the empty string are falsy.
\<close>

fun truthy :: "string option \<Rightarrow> bool" where
  "truthy None = False"
| "truthy (Some s) = (s \<noteq> [])"

text \<open>The interpolation \<^verbatim>\<open>${version}\<close> of an optional string.\<close>

fun template :: "string option \<Rightarrow> string" where
  "template None = ''undefined''"
| "template (Some s) = s"

subsection \<open>FileLocator: \<^verbatim>\<open>getFiles\<close>\<close>

definition getFiles :: "platform \<Rightarrow> string \<Rightarrow> error + string list" where
  "getFiles env pattern =
     (case glob env pattern ''node_modules/**'' of
        Inl e \<Rightarrow> Inl (Error (''Error finding files: '' @ e))
      | Inr found \<Rightarrow> Inr found)"

subsection \<open>IdMatcher: \<^verbatim>\<open>searchFilesForId\<close>\<close>

text \<open>
  The sources of the two patterns, \<^verbatim>\<open>`^id:\\s*(['"]|>-)?\\s*${id}['"]?\\s*$`\<close> and
  \<^verbatim>\<open>`^version:\\s*['"]?${version}['"]?\\s*$`\<close>.  \<open>CHR 0x5C\<close> is the backslash, \<open>CHR 0x27\<close>
  the single and \<open>CHR 0x22\<close> the double quote.
\<close>

definition idRegex_source :: "string \<Rightarrow> string" where
  "idRegex_source id' =
     ''^id:'' @ [CHR 0x5C] @ ''s*(['' @ [CHR 0x27, CHR 0x22] @ '']|>-)?'' @ [CHR 0x5C] @ ''s*''
     @ id' @ ''['' @ [CHR 0x27, CHR 0x22] @ '']?'' @ [CHR 0x5C] @ ''s*$''"

definition versionRegex_source :: "string option \<Rightarrow> string" where
  "versionRegex_source version =
     ''^version:'' @ [CHR 0x5C] @ ''s*['' @ [CHR 0x27, CHR 0x22] @ '']?''
     @ template version @ ''['' @ [CHR 0x27, CHR 0x22] @ '']?'' @ [CHR 0x5C] @ ''s*$''"

definition compile :: "string \<Rightarrow> error + regex" where
  "compile source =
     (case RegExp source of
        Inl InvalidPattern \<Rightarrow> Inl SyntaxError
      | Inl OutsideFragment \<Rightarrow> Inl Unmodelled
      | Inr r \<Rightarrow> Inr r)"

text \<open>
  The callback of \<^verbatim>\<open>files.map\<close>: \<open>None\<close> is \<^verbatim>\<open>undefined\<close>.
\<close>

definition search_file ::
  "platform \<Rightarrow> regex \<Rightarrow> regex \<Rightarrow> string option \<Rightarrow> string \<Rightarrow> error + string option" where
  "search_file env idRegex versionRegex version file =
     (case readFile env file of
        Inl e \<Rightarrow> Inl e
      | Inr content \<Rightarrow>
          let hasIdMatch = regex_test idRegex content in
          if truthy version \<and> \<not> regex_test versionRegex content then Inr None
          else if hasIdMatch then Inr (Some file)
          else Inr None)"

text \<open>
  \<^verbatim>\<open>Promise.all\<close>: the values in the order of the promises, or a rejection.  When several
  promises reject, the model reports the first one in list order.
\<close>

fun promise_all :: "(error + 'a) list \<Rightarrow> error + 'a list" where
  "promise_all [] = Inr []"
| "promise_all (Inl e # ps) = Inl e"
| "promise_all (Inr x # ps) = (case promise_all ps of Inl e \<Rightarrow> Inl e | Inr xs \<Rightarrow> Inr (x # xs))"

text \<open>
  \<^verbatim>\<open>Boolean(file)\<close> on a \<^verbatim>\<open>string | undefined\<close>, and the final
  \<^verbatim>\<open>filter((file) => file !== undefined)\<close>, after which every element is a string.
\<close>

fun defined_strings :: "string option list \<Rightarrow> string list" where
  "defined_strings [] = []"
| "defined_strings (None # ms) = defined_strings ms"
| "defined_strings (Some file # ms) = file # defined_strings ms"

definition searchFilesForId ::
  "platform \<Rightarrow> string list \<Rightarrow> string \<Rightarrow> string option \<Rightarrow> error + string list" where
  "searchFilesForId env files id' version =
     (case compile (idRegex_source id') of
        Inl e \<Rightarrow> Inl e
      | Inr idRegex \<Rightarrow>
          (case compile (versionRegex_source version) of
             Inl e \<Rightarrow> Inl e
           | Inr versionRegex \<Rightarrow>
               (case promise_all (map (search_file env idRegex versionRegex version) files) of
                  Inl e \<Rightarrow> Inl e
                | Inr matches \<Rightarrow> Inr (defined_strings (filter truthy matches)))))"

subsection \<open>ExistenceChecker: \<^verbatim>\<open>versionExists\<close>\<close>

definition versionExists :: "platform \<Rightarrow> string \<Rightarrow> string \<Rightarrow> string \<Rightarrow> error + bool" where
  "versionExists env catalogDir id' version =
     (case getFiles env (catalogDir @ ''/**/index.md'') of
        Inl e \<Rightarrow> Inl e
      | Inr files \<Rightarrow>
          (case searchFilesForId env files id' (Some version) of
             Inl e \<Rightarrow> Inl e
           | Inr matchedFiles \<Rightarrow> Inr (length matchedFiles > 0)))"

subsection \<open>VersionResolver: \<^verbatim>\<open>findFileById\<close>\<close>

text \<open>\<^verbatim>\<open>String.prototype.includes\<close>: the argument occurs as a contiguous substring.\<close>

fun string_includes :: "string \<Rightarrow> string \<Rightarrow> bool" where
  "string_includes [] sub = (sub = [])"
| "string_includes (c # cs) sub = (prefix sub (c # cs) \<or> string_includes cs sub)"

text \<open>
  An element of \<^verbatim>\<open>parsedFiles\<close>, \<^verbatim>\<open>{ ...data, path }\<close>, with the fields that are read.
\<close>

record parsed =
  version_p :: jsvalue
  path_p :: string

definition parse_file :: "platform \<Rightarrow> string \<Rightarrow> error + parsed" where
  "parse_file env path =
     (case matter_read env path of
        Inl e \<Rightarrow> Inl (Thrown e)
      | Inr d \<Rightarrow> Inr \<lparr>version_p = version_d d, path_p = path\<rparr>)"

text \<open>\<^verbatim>\<open>matchedFiles.map\<close> with a callback that can throw: the first exception ends it.\<close>

fun map_throwing :: "('a \<Rightarrow> error + 'b) \<Rightarrow> 'a list \<Rightarrow> error + 'b list" where
  "map_throwing f [] = Inr []"
| "map_throwing f (x # xs) =
     (case f x of
        Inl e \<Rightarrow> Inl e
      | Inr y \<Rightarrow> (case map_throwing f xs of Inl e \<Rightarrow> Inl e | Inr ys \<Rightarrow> Inr (y # ys)))"

text \<open>\<^verbatim>\<open>parsedFiles.filter\<close> with a callback that can throw.\<close>

fun filter_throwing :: "('a \<Rightarrow> error + bool) \<Rightarrow> 'a list \<Rightarrow> error + 'a list" where
  "filter_throwing f [] = Inr []"
| "filter_throwing f (x # xs) =
     (case f x of
        Inl e \<Rightarrow> Inl e
      | Inr keep \<Rightarrow>
          (case filter_throwing f xs of
             Inl e \<Rightarrow> Inl e
           | Inr ys \<Rightarrow> Inr (if keep then x # ys else ys)))"

definition satisfies_range :: "platform \<Rightarrow> string \<Rightarrow> parsed \<Rightarrow> error + bool" where
  "satisfies_range env semverRange c =
     (case satisfies env (version_p c) semverRange of
        Inl e \<Rightarrow> Inl (Thrown e)
      | Inr b \<Rightarrow> Inr b)"

text \<open>
  \<^verbatim>\<open>Array.prototype.sort\<close> with the comparator
  \<^verbatim>\<open>(a, b) => a.version.localeCompare(b.version)\<close>.  The sort is stable, and for a consistent
  comparator its result is the one of a stable insertion sort: an element goes before the
  first element of the sorted rest that it does not exceed.
\<close>

fun insert_sorted :: "('a \<Rightarrow> 'a \<Rightarrow> int) \<Rightarrow> 'a \<Rightarrow> 'a list \<Rightarrow> 'a list" where
  "insert_sorted cmp x [] = [x]"
| "insert_sorted cmp x (y # ys) =
     (if cmp x y \<le> 0 then x # y # ys else y # insert_sorted cmp x ys)"

fun sort_with :: "('a \<Rightarrow> 'a \<Rightarrow> int) \<Rightarrow> 'a list \<Rightarrow> 'a list" where
  "sort_with cmp [] = []"
| "sort_with cmp (x # xs) = insert_sorted cmp x (sort_with cmp xs)"

fun is_string :: "jsvalue \<Rightarrow> bool" where
  "is_string (JString s) = True"
| "is_string v = False"

fun string_of :: "jsvalue \<Rightarrow> string" where
  "string_of (JString s) = s"
| "string_of v = []"

text \<open>
  The comparator calls \<^verbatim>\<open>localeCompare\<close> on \<^verbatim>\<open>a.version\<close>, which throws a
  \<^verbatim>\<open>TypeError\<close> unless that version is a string; an array of fewer than two elements is
  sorted without a call of the comparator.  Which pairs a sort compares, and in which
  order, is left to the engine: when some versions are strings and others are not, whether
  the sort throws depends on the engine, and the model leaves that case open.
\<close>

definition sort_by_version :: "platform \<Rightarrow> parsed list \<Rightarrow> error + parsed list" where
  "sort_by_version env parsedFiles =
     (if length parsedFiles < 2 then Inr parsedFiles
      else if list_all (\<lambda>c. is_string (version_p c)) parsedFiles then
        Inr (sort_with
               (\<lambda>a b. localeCompare env (string_of (version_p a)) (string_of (version_p b)))
               parsedFiles)
      else if list_all (\<lambda>c. \<not> is_string (version_p c)) parsedFiles then Inl TypeError
      else Inl Unmodelled)"

text \<open>
  The part of \<^verbatim>\<open>findFileById\<close> after the candidate set \<^verbatim>\<open>matchedFiles\<close> is known.
  \<^verbatim>\<open>validRange\<close> and \<^verbatim>\<open>valid\<close> return a string or \<^verbatim>\<open>null\<close>, and the condition
  \<^verbatim>\<open>semverRange && valid(version)\<close> tests both for truthiness.
\<close>

definition resolve ::
  "platform \<Rightarrow> string list \<Rightarrow> string option \<Rightarrow> error + string option" where
  "resolve env matchedFiles version =
     (let latestVersion = find (\<lambda>path. \<not> string_includes path ''versioned'') matchedFiles in
      if \<not> truthy version then Inr latestVersion
      else
        (case map_throwing (parse_file env) matchedFiles of
           Inl e \<Rightarrow> Inl e
         | Inr parsedFiles \<Rightarrow>
             let semverRange = validRange env (template version) in
             if truthy semverRange \<and> truthy (valid env (template version)) then
               (case filter_throwing (satisfies_range env (template semverRange)) parsedFiles of
                  Inl e \<Rightarrow> Inl e
                | Inr match \<Rightarrow>
                    Inr (if length match > 0 then Some (path_p (hd match)) else None))
             else
               (case sort_by_version env parsedFiles of
                  Inl e \<Rightarrow> Inl e
                | Inr sorted' \<Rightarrow>
                    let match = (if length sorted' > 0 then [last sorted'] else []) in
                    Inr (if length match > 0 then Some (path_p (hd match)) else None))))"

definition findFileById ::
  "platform \<Rightarrow> string \<Rightarrow> string \<Rightarrow> string option \<Rightarrow> error + string option" where
  "findFileById env catalogDir id' version =
     (case getFiles env (catalogDir @ ''/**/index.md'') of
        Inl e \<Rightarrow> Inl e
      | Inr files \<Rightarrow>
          (case searchFilesForId env files id' None of
             Inl e \<Rightarrow> Inl e
           | Inr matchedFiles \<Rightarrow> resolve env matchedFiles version))"

subsection \<open>DirectoryCopier: \<^verbatim>\<open>copyDir\<close>\<close>

text \<open>
  A file system: resolved paths (lists of segments from the root) mapped to a file with
  its bytes or to a directory.  It is an association list read with \<open>map_of\<close>, so the first
  entry of a path is the one that counts.
\<close>

type_synonym path = "string list"

datatype entry = File string | Directory

type_synonym filesystem = "(path \<times> entry) list"

definition lookup :: "filesystem \<Rightarrow> path \<Rightarrow> entry option" where
  "lookup fs p = map_of fs p"

text \<open>The tree below a path: what is found at each path relative to it.\<close>

definition subtree :: "filesystem \<Rightarrow> path \<Rightarrow> path \<Rightarrow> entry option" where
  "subtree fs p rel = lookup fs (p @ rel)"

fun strip_prefix :: "'a list \<Rightarrow> 'a list \<Rightarrow> 'a list option" where
  "strip_prefix [] ys = Some ys"
| "strip_prefix (x # xs) [] = None"
| "strip_prefix (x # xs) (y # ys) = (if x = y then strip_prefix xs ys else None)"

fun is_directory :: "entry \<Rightarrow> bool" where
  "is_directory Directory = True"
| "is_directory (File bytes) = False"

fun is_file_at :: "entry option \<Rightarrow> bool" where
  "is_file_at (Some (File bytes)) = True"
| "is_file_at e = False"

text \<open>\<^verbatim>\<open>join(catalogDir, 'tmp')\<close> on resolved paths.\<close>

definition join :: "path \<Rightarrow> string \<Rightarrow> path" where
  "join dir name = dir @ [name]"

text \<open>
  Modelled from the spec: \<^verbatim>\<open>fs.mkdir(dir, { recursive: true })\<close> of Node is not part of the
  repository's sources; the spec has the staging directory created with its parent
  directories as needed.  The directory and each missing ancestor are created, an existing
  directory is left as it is, and a file in the way is an error.
\<close>

definition mkdir_recursive :: "path \<Rightarrow> filesystem \<Rightarrow> error + filesystem" where
  "mkdir_recursive dir fs =
     (if list_ex (\<lambda>q. is_file_at (lookup fs q)) (prefixes dir) then Inl (Thrown ''EEXIST'')
      else Inr (map (\<lambda>q. (q, Directory)) (filter (\<lambda>q. lookup fs q = None) (prefixes dir)) @ fs))"

text \<open>
  The entries at and below \<open>src\<close>, each with its path relative to \<open>src\<close>.
\<close>

definition entries_under :: "path \<Rightarrow> filesystem \<Rightarrow> (path \<times> entry) list" where
  "entries_under src fs =
     List.map_filter
       (\<lambda>q. case strip_prefix src q of
               None \<Rightarrow> None
             | Some rel \<Rightarrow> map_option (\<lambda>e. (rel, e)) (lookup fs q))
       (map fst fs)"

text \<open>
  The \<^verbatim>\<open>filter\<close> option of \<^verbatim>\<open>copy\<close> is asked for the source and for each entry below
  it, with the entry's source and destination paths; an entry it rejects is skipped with
  everything below it.  \<open>None\<close> is a call without a filter.
\<close>

definition included :: "(path \<Rightarrow> path \<Rightarrow> bool) option \<Rightarrow> path \<Rightarrow> path \<Rightarrow> path \<Rightarrow> bool" where
  "included filter' src dest rel =
     (case filter' of
        None \<Rightarrow> True
      | Some f \<Rightarrow> list_all (\<lambda>r. f (src @ r) (dest @ r)) (prefixes rel))"

fun conflicts :: "entry \<Rightarrow> entry option \<Rightarrow> bool" where
  "conflicts e None = False"
| "conflicts e (Some e') = (is_directory e \<noteq> is_directory e')"

text \<open>
  Modelled from the spec: \<^verbatim>\<open>copy(src, dest, { overwrite: true, filter })\<close> of fs-extra is
  not part of the repository's sources; the spec describes a recursive copy that creates
  parent directories as needed and overwrites existing entries.  Every entry at and below
  \<open>src\<close> that the filter admits is written at the same relative path below \<open>dest\<close>, in
  place of what was there; other entries of the destination stay.  A missing source, a
  destination equal to the source or inside the source directory, and a directory in the
  place of a file (or a file in the place of a directory) are errors.  A destination that
  is an ancestor of the source makes the copy read what it is writing; the model leaves
  that case open.
\<close>

definition copy ::
  "path \<Rightarrow> path \<Rightarrow> (path \<Rightarrow> path \<Rightarrow> bool) option \<Rightarrow> filesystem \<Rightarrow> error + filesystem" where
  "copy src dest filter' fs =
     (case lookup fs src of
        None \<Rightarrow> Inl (Thrown ''ENOENT'')
      | Some e \<Rightarrow>
          if src = dest then Inl (Thrown ''Source and destination must not be the same.'')
          else if conflicts e (lookup fs dest) then Inl (Thrown ''Cannot overwrite'')
          else if is_directory e \<and> prefix src dest then
            Inl (Thrown ''Cannot copy to a subdirectory of itself'')
          else if prefix dest src then Inl Unmodelled
          else if \<not> included filter' src dest [] then Inr fs
          else
            (case mkdir_recursive (butlast dest) fs of
               Inl err \<Rightarrow> Inl err
             | Inr fs1 \<Rightarrow>
                 let copied = filter (\<lambda>(rel, e). included filter' src dest rel)
                                (entries_under src fs) in
                 if list_ex (\<lambda>(rel, e). conflicts e (lookup fs (dest @ rel))) copied
                 then Inl (Thrown ''Cannot overwrite'')
                 else Inr (map (\<lambda>(rel, e). (dest @ rel, e)) copied @ fs1)))"

text \<open>
  Modelled from the spec: \<^verbatim>\<open>fs.rm(path, { recursive: true })\<close> of Node is not part of the
  repository's sources; the spec has the staging directory removed with all its contents.
  Without the \<^verbatim>\<open>force\<close> option a missing path is an error.
\<close>

definition rm_recursive :: "path \<Rightarrow> filesystem \<Rightarrow> error + filesystem" where
  "rm_recursive p fs =
     (if lookup fs p = None then Inl (Thrown ''ENOENT'')
      else Inr (filter (\<lambda>(q, e). \<not> prefix p q) fs))"

definition copyDir ::
  "path \<Rightarrow> path \<Rightarrow> path \<Rightarrow> (path \<Rightarrow> path \<Rightarrow> bool) option \<Rightarrow> filesystem \<Rightarrow> error + filesystem" where
  "copyDir catalogDir source target filter' fs =
     (let tmpDirectory = join catalogDir ''tmp'' in
      case mkdir_recursive tmpDirectory fs of
        Inl e \<Rightarrow> Inl e
      | Inr fs1 \<Rightarrow>
          (case copy source tmpDirectory filter' fs1 of
             Inl e \<Rightarrow> Inl e
           | Inr fs2 \<Rightarrow>
               (case copy tmpDirectory target filter' fs2 of
                  Inl e \<Rightarrow> Inl e
                | Inr fs3 \<Rightarrow> rm_recursive tmpDirectory fs3)))"

text \<open>Two paths lie apart when neither is the other or an ancestor of the other.\<close>

definition apart :: "path \<Rightarrow> path \<Rightarrow> bool" where
  "apart a b = (\<not> prefix a b \<and> \<not> prefix b a)"

subsection \<open>Path segments\<close>

text \<open>
  The reading of ``contains \<^verbatim>\<open>versioned\<close> as a path segment'' that the spec gives for the
  latest candidate: one of the \<^verbatim>\<open>/\<close>-separated segments of the path is the given name.
  It is compared below with the test \<open>string_includes\<close> that the source applies.
\<close>

fun split_on :: "char \<Rightarrow> string \<Rightarrow> string list" where
  "split_on sep [] = [[]]"
| "split_on sep (c # cs) =
     (if c = sep then [] # split_on sep cs
      else (case split_on sep cs of [] \<Rightarrow> [[c]] | w # ws \<Rightarrow> (c # w) # ws))"

definition has_path_segment :: "string \<Rightarrow> string \<Rightarrow> bool" where
  "has_path_segment path segment = (segment \<in> set (split_on (CHR ''/'') path))"

subsection \<open>A platform for the examples\<close>

text \<open>
  The examples run on a catalog given as a list of \<^verbatim>\<open>index.md\<close> files, each with its
  path, its text and the front matter gray-matter reads from it.  The semver functions of
  this platform cover the two forms the examples use, a plain \<^verbatim>\<open>MAJOR.MINOR.PATCH\<close> version
  and a caret range \<^verbatim>\<open>^MAJOR.MINOR.PATCH\<close>, on which they answer as the semver package does;
  every other string is reported as invalid, which the package does for the tags of the
  examples but not for all strings.  \<^verbatim>\<open>localeCompare\<close> compares code units, which is the
  order of a locale on the digits and lower-case letters of the examples.
\<close>

definition numeric_identifier :: "string \<Rightarrow> nat option" where
  "numeric_identifier s =
     (if s \<noteq> [] \<and> list_all is_digit s \<and> (length s = 1 \<or> hd s \<noteq> CHR ''0'')
      then Some (foldl (\<lambda>n c. 10 * n + (of_char c - 48)) 0 s)
      else None)"

definition core_version :: "string \<Rightarrow> (nat \<times> nat \<times> nat) option" where
  "core_version s =
     (case map numeric_identifier (split_on (CHR ''.'') s) of
        [Some major, Some minor, Some patch] \<Rightarrow> Some (major, minor, patch)
      | _ \<Rightarrow> None)"

text \<open>
  \<open>caret base v\<close>: the version \<open>v\<close> is in the range \<^verbatim>\<open>^base\<close>, which allows the changes
  that keep the left-most non-zero number of \<open>base\<close>.
\<close>

fun caret :: "nat \<times> nat \<times> nat \<Rightarrow> nat \<times> nat \<times> nat \<Rightarrow> bool" where
  "caret (major, minor, patch) (major', minor', patch') =
     (if major > 0 then major' = major \<and> (minor' > minor \<or> (minor' = minor \<and> patch' \<ge> patch))
      else if minor > 0 then major' = 0 \<and> minor' = minor \<and> patch' \<ge> patch
      else major' = 0 \<and> minor' = 0 \<and> patch' = patch)"

definition example_valid :: "string \<Rightarrow> string option" where
  "example_valid version = (case core_version version of None \<Rightarrow> None | Some v \<Rightarrow> Some version)"

text \<open>
  The semver package returns a caret range in comparator form; the module tests the result
  for truthiness and hands it to \<^verbatim>\<open>satisfies\<close>, so the example keeps the caret form.
\<close>

definition example_validRange :: "string \<Rightarrow> string option" where
  "example_validRange r =
     (case r of
        [] \<Rightarrow> None
      | c # cs \<Rightarrow>
          (case core_version (if c = CHR ''^'' then cs else c # cs) of
             None \<Rightarrow> None
           | Some v \<Rightarrow> Some r))"

definition example_satisfies :: "jsvalue \<Rightarrow> string \<Rightarrow> string + bool" where
  "example_satisfies version r =
     (case version of
        JString s \<Rightarrow>
          (case core_version s of
             None \<Rightarrow> Inr False
           | Some v \<Rightarrow>
               (case r of
                  [] \<Rightarrow> Inr False
                | c # cs \<Rightarrow>
                    if c = CHR ''^'' then
                      (case core_version cs of None \<Rightarrow> Inr False | Some base \<Rightarrow> Inr (caret base v))
                    else
                      (case core_version (c # cs) of
                         None \<Rightarrow> Inr False
                       | Some base \<Rightarrow> Inr (v = base))))
      | JUndefined \<Rightarrow> Inr False
      | JNull \<Rightarrow> Inr False
      | JBool b \<Rightarrow> if b then Inl ''TypeError: Invalid version'' else Inr False
      | JNumber n \<Rightarrow> if n = 0 then Inr False else Inl ''TypeError: Invalid version'')"

fun compare_code_units :: "string \<Rightarrow> string \<Rightarrow> int" where
  "compare_code_units [] [] = 0"
| "compare_code_units [] (y # ys) = - 1"
| "compare_code_units (x # xs) [] = 1"
| "compare_code_units (x # xs) (y # ys) =
     (if (of_char x :: nat) < of_char y then - 1
      else if (of_char y :: nat) < of_char x then 1
      else compare_code_units xs ys)"

definition catalog :: "(string \<times> string \<times> data) list \<Rightarrow> platform" where
  "catalog entries =
     \<lparr>glob = (\<lambda>pattern ignore.
         if pattern = ''catalog/**/index.md'' then Inr (map fst entries) else Inr []),
      contents = (\<lambda>file.
         case map_of entries file of None \<Rightarrow> Inl ''ENOENT'' | Some (content, d) \<Rightarrow> Inr content),
      matter_read = (\<lambda>file.
         case map_of entries file of None \<Rightarrow> Inl ''ENOENT'' | Some (content, d) \<Rightarrow> Inr d),
      validRange = example_validRange,
      valid = example_valid,
      satisfies = example_satisfies,
      localeCompare = compare_code_units\<rparr>"

text \<open>An \<^verbatim>\<open>index.md\<close> whose front matter holds the given id and version.\<close>

definition index_md :: "string \<Rightarrow> string \<Rightarrow> string \<times> data" where
  "index_md id' version =
     (''---\<newline>id: '' @ id' @ ''\<newline>version: '' @ version @ ''\<newline>---\<newline>'',
      \<lparr>id_d = JString id', version_d = JString version\<rparr>)"

text \<open>
  Candidates A (a snapshot, version 1.2.0) and B (the canonical copy, version 2.0.0) of
  one id.
\<close>

definition orders :: platform where
  "orders = catalog
     [(''catalog/events/OrderPlaced/versioned/1.2.0/index.md'', index_md ''OrderPlaced'' ''1.2.0''),
      (''catalog/events/OrderPlaced/index.md'', index_md ''OrderPlaced'' ''2.0.0'')]"

text \<open>Candidates B (version b-draft) and A (version a-draft) of one id, B found first.\<close>

definition drafts :: platform where
  "drafts = catalog
     [(''catalog/events/Draft/index.md'', index_md ''Draft'' ''b-draft''),
      (''catalog/events/Draft/versioned/a-draft/index.md'', index_md ''Draft'' ''a-draft'')]"

text \<open>One file, whose front matter has the line \<^verbatim>\<open>id: abc\<close>.\<close>

definition letters :: platform where
  "letters = catalog [(''catalog/events/abc/index.md'', index_md ''abc'' ''1.0.0'')]"

text \<open>One file, in a directory whose name contains the letters \<^verbatim>\<open>versioned\<close>.\<close>

definition pings :: platform where
  "pings = catalog [(''catalog/unversioned/Ping/index.md'', index_md ''Ping'' ''1.0.0'')]"

text \<open>
  A source directory with one file, and a target directory that already holds another
  file.
\<close>

definition disk :: filesystem where
  "disk =
     [([''src''], Directory), ([''src'', ''a.md''], File ''A''),
      ([''out''], Directory), ([''out'', ''old.md''], File ''OLD'')]"

text \<open>The same source directory, with no target yet.\<close>

definition fresh_disk :: filesystem where
  "fresh_disk = [([''src''], Directory), ([''src'', ''a.md''], File ''A'')]"

subsection \<open>Properties of \<^verbatim>\<open>uniqueMessages\<close>\<close>

lemma uniqueMessages_filter_snoc:
  "uniqueMessages_filter S (ms @ [m]) =
     (if message_key m \<in> S \<union> message_key ` set ms
      then uniqueMessages_filter S ms
      else uniqueMessages_filter S ms @ [m])"
  by (induction ms arbitrary: S) (auto simp: Let_def)

lemma uniqueMessages_snoc:
  "uniqueMessages (ms @ [m]) =
     (if message_key m \<in> message_key ` set ms
      then uniqueMessages ms
      else uniqueMessages ms @ [m])"
  by (simp add: uniqueMessages_def uniqueMessages_filter_snoc)

lemma uniqueMessages_positions:
  "uniqueMessages ms =
     map (\<lambda>i. ms ! i)
       (filter (\<lambda>i. message_key (ms ! i) \<notin> message_key ` set (take i ms)) [0..<length ms])"
proof (induction ms rule: rev_induct)
  case Nil
  show ?case by (simp add: uniqueMessages_def)
next
  case (snoc m ms)
  let ?new = "\<lambda>xs i. message_key (xs ! i) \<notin> message_key ` set (take i xs)"
  have old: "filter (?new (ms @ [m])) [0..<length ms] = filter (?new ms) [0..<length ms]"
    by (rule filter_cong) (auto simp: nth_append)
  have nth_old: "map (\<lambda>i. (ms @ [m]) ! i) (filter (?new ms) [0..<length ms])
               = map (\<lambda>i. ms ! i) (filter (?new ms) [0..<length ms])"
    by (rule map_cong) (auto simp: nth_append)
  have last_new: "?new (ms @ [m]) (length ms) \<longleftrightarrow> message_key m \<notin> message_key ` set ms"
    by simp
  have "map (\<lambda>i. (ms @ [m]) ! i) (filter (?new (ms @ [m])) [0..<length (ms @ [m])])
      = map (\<lambda>i. (ms @ [m]) ! i)
          (filter (?new (ms @ [m])) [0..<length ms]
           @ (if ?new (ms @ [m]) (length ms) then [length ms] else []))"
    by simp
  also have "\<dots> = map (\<lambda>i. ms ! i) (filter (?new ms) [0..<length ms])
                 @ (if message_key m \<notin> message_key ` set ms then [m] else [])"
    unfolding old last_new by (simp add: nth_old)
  also have "\<dots> = uniqueMessages (ms @ [m])"
    by (simp add: uniqueMessages_snoc snoc.IH)
  finally show ?case by simp
qed

text \<open>
  Claim C6.  \<^verbatim>\<open>uniqueMessages\<close> keeps exactly the elements whose composite key
  \<^verbatim>\<open>`${id}-${version}`\<close> does not occur at an earlier position of the input, in the order of
  the input: the result lists the input at the positions \<open>i\<close> whose key is new among the
  first \<open>i\<close> elements, with the positions ascending.  On
  \<^verbatim>\<open>[{id:"x",version:"1"},{id:"x",version:"1"},{id:"y",version:"1"}]\<close> the result is
  \<^verbatim>\<open>[{id:"x",version:"1"},{id:"y",version:"1"}]\<close>.
\<close>

theorem uniqueMessages_first_occurrences:
  "uniqueMessages ms =
     map (\<lambda>i. ms ! i)
       (filter (\<lambda>i. message_key (ms ! i) \<notin> message_key ` set (take i ms)) [0..<length ms])
   \<and> uniqueMessages
       [\<lparr>id_m = ''x'', version_m = ''1''\<rparr>, \<lparr>id_m = ''x'', version_m = ''1''\<rparr>,
        \<lparr>id_m = ''y'', version_m = ''1''\<rparr>]
     = [\<lparr>id_m = ''x'', version_m = ''1''\<rparr>, \<lparr>id_m = ''y'', version_m = ''1''\<rparr>]"
proof
  show "uniqueMessages ms =
     map (\<lambda>i. ms ! i)
       (filter (\<lambda>i. message_key (ms ! i) \<notin> message_key ` set (take i ms)) [0..<length ms])"
    by (rule uniqueMessages_positions)
next
  show "uniqueMessages
       [\<lparr>id_m = ''x'', version_m = ''1''\<rparr>, \<lparr>id_m = ''x'', version_m = ''1''\<rparr>,
        \<lparr>id_m = ''y'', version_m = ''1''\<rparr>]
     = [\<lparr>id_m = ''x'', version_m = ''1''\<rparr>, \<lparr>id_m = ''y'', version_m = ''1''\<rparr>]"
    by (simp add: uniqueMessages_def message_key_def)
qed

text \<open>
  Claim C10.  The composite key is not injective on (id, version) pairs: the two messages
  \<^verbatim>\<open>{id:"a-b",version:"c"}\<close> and \<^verbatim>\<open>{id:"a",version:"b-c"}\<close> differ in both fields and
  share the key \<^verbatim>\<open>a-b-c\<close>, so \<^verbatim>\<open>uniqueMessages\<close> drops the second one.
\<close>

theorem uniqueMessages_key_collision:
  "(id_m \<lparr>id_m = ''a-b'', version_m = ''c''\<rparr>, version_m \<lparr>id_m = ''a-b'', version_m = ''c''\<rparr>)
     \<noteq> (id_m \<lparr>id_m = ''a'', version_m = ''b-c''\<rparr>, version_m \<lparr>id_m = ''a'', version_m = ''b-c''\<rparr>)
   \<and> message_key \<lparr>id_m = ''a-b'', version_m = ''c''\<rparr>
     = message_key \<lparr>id_m = ''a'', version_m = ''b-c''\<rparr>
   \<and> uniqueMessages [\<lparr>id_m = ''a-b'', version_m = ''c''\<rparr>, \<lparr>id_m = ''a'', version_m = ''b-c''\<rparr>]
     = [\<lparr>id_m = ''a-b'', version_m = ''c''\<rparr>]"
  by (simp add: uniqueMessages_def message_key_def)

subsection \<open>Properties of \<^verbatim>\<open>searchFilesForId\<close>\<close>

lemma promise_all_map:
  "\<forall>x\<in>set xs. f x = Inr (g x) \<Longrightarrow> promise_all (map f xs) = Inr (map g xs)"
  by (induction xs) auto

lemma readFile_nonempty: "readFile env file = Inr content \<Longrightarrow> file \<noteq> []"
  by (auto simp: readFile_def split: if_splits)

lemma search_file_read:
  "readFile env file = Inr content \<Longrightarrow>
   search_file env idRegex versionRegex version file =
     Inr (if regex_test idRegex content \<and> (truthy version \<longrightarrow> regex_test versionRegex content)
          then Some file else None)"
  by (auto simp: search_file_def Let_def)

lemma defined_strings_filter:
  "\<forall>file\<in>set files. file \<noteq> [] \<Longrightarrow>
   defined_strings (filter truthy (map (\<lambda>file. if P file then Some file else None) files))
     = filter P files"
  by (induction files) auto

lemma searchFilesForId_filter:
  assumes "compile (idRegex_source id') = Inr idRegex"
    and "compile (versionRegex_source version) = Inr versionRegex"
    and "\<forall>file\<in>set files. readFile env file = Inr (content file)"
  shows "searchFilesForId env files id' version =
     Inr (filter (\<lambda>file. regex_test idRegex (content file)
                   \<and> (truthy version \<longrightarrow> regex_test versionRegex (content file))) files)"
proof -
  let ?keep = "\<lambda>file. regex_test idRegex (content file)
                   \<and> (truthy version \<longrightarrow> regex_test versionRegex (content file))"
  have "\<forall>file\<in>set files. search_file env idRegex versionRegex version file
          = Inr (if ?keep file then Some file else None)"
    using assms(3) by (simp add: search_file_read)
  then have all: "promise_all (map (search_file env idRegex versionRegex version) files)
          = Inr (map (\<lambda>file. if ?keep file then Some file else None) files)"
    by (rule promise_all_map)
  have "\<forall>file\<in>set files. file \<noteq> []"
    using assms(3) readFile_nonempty by blast
  then have "defined_strings (filter truthy (map (\<lambda>file. if ?keep file then Some file else None) files))
          = filter ?keep files"
    by (rule defined_strings_filter)
  then show ?thesis
    by (simp add: searchFilesForId_def assms(1,2) all)
qed

text \<open>The files and patterns of the example catalogs.\<close>

lemma orders_getFiles:
  "getFiles orders ''catalog/**/index.md''
     = Inr [''catalog/events/OrderPlaced/versioned/1.2.0/index.md'',
            ''catalog/events/OrderPlaced/index.md'']"
  by (simp add: getFiles_def orders_def catalog_def)

lemma orders_readFile:
  "\<forall>file\<in>set [''catalog/events/OrderPlaced/versioned/1.2.0/index.md'',
               ''catalog/events/OrderPlaced/index.md''].
     readFile orders file = Inr (projr (readFile orders file))"
  by (simp add: readFile_def orders_def catalog_def index_md_def)

lemma orders_candidates:
  "searchFilesForId orders
     [''catalog/events/OrderPlaced/versioned/1.2.0/index.md'',
      ''catalog/events/OrderPlaced/index.md''] ''OrderPlaced'' None
   = Inr [''catalog/events/OrderPlaced/versioned/1.2.0/index.md'',
          ''catalog/events/OrderPlaced/index.md'']"
  by code_simp

lemma orders_matter_read:
  "matter_read orders ''catalog/events/OrderPlaced/versioned/1.2.0/index.md''
     = Inr \<lparr>id_d = JString ''OrderPlaced'', version_d = JString ''1.2.0''\<rparr>
   \<and> matter_read orders ''catalog/events/OrderPlaced/index.md''
     = Inr \<lparr>id_d = JString ''OrderPlaced'', version_d = JString ''2.0.0''\<rparr>"
  by (simp add: orders_def catalog_def index_md_def)

lemma OrderPlaced_idRegex:
  "compile (idRegex_source ''OrderPlaced'')
     = Inr (projr (compile (idRegex_source ''OrderPlaced'')))"
proof -
  have "\<not> isl (compile (idRegex_source ''OrderPlaced''))"
    by code_simp
  then show ?thesis by simp
qed

subsection \<open>Properties of \<^verbatim>\<open>findFileById\<close>\<close>

lemma findFileById_resolve:
  "getFiles env (catalogDir @ ''/**/index.md'') = Inr files \<Longrightarrow>
   searchFilesForId env files id' None = Inr matchedFiles \<Longrightarrow>
   findFileById env catalogDir id' version = resolve env matchedFiles version"
  by (simp add: findFileById_def)

lemma string_includes_sublist: "string_includes s sub = sublist sub s"
  by (induction s) (simp_all add: sublist_Cons_right)

lemma map_throwing_map:
  "\<forall>x\<in>set xs. f x = Inr (g x) \<Longrightarrow> map_throwing f xs = Inr (map g xs)"
  by (induction xs) auto

lemma filter_throwing_filter:
  "\<forall>x\<in>set xs. f x = Inr (p x) \<Longrightarrow> filter_throwing f xs = Inr (filter p xs)"
  by (induction xs) auto

lemma parsedFiles_map:
  "\<forall>path\<in>set matchedFiles. matter_read env path = Inr (front path) \<Longrightarrow>
   map_throwing (parse_file env) matchedFiles
     = Inr (map (\<lambda>path. \<lparr>version_p = version_d (front path), path_p = path\<rparr>) matchedFiles)"
  by (rule map_throwing_map) (simp add: parse_file_def)

lemma find_filter_hd: "find P xs = (case filter P xs of [] \<Rightarrow> None | x # ys \<Rightarrow> Some x)"
  by (induction xs) auto

lemma first_match_find:
  "(if length (filter (\<lambda>c. ok (path_p c)) (map (\<lambda>path. \<lparr>version_p = v path, path_p = path\<rparr>) xs)) > 0
    then Some (path_p (hd (filter (\<lambda>c. ok (path_p c))
                 (map (\<lambda>path. \<lparr>version_p = v path, path_p = path\<rparr>) xs))))
    else None) = find ok xs"
proof -
  have "filter (\<lambda>c. ok (path_p c)) (map (\<lambda>path. \<lparr>version_p = v path, path_p = path\<rparr>) xs)
      = map (\<lambda>path. \<lparr>version_p = v path, path_p = path\<rparr>) (filter ok xs)"
    by (simp add: filter_map o_def)
  then show ?thesis
    by (cases "filter ok xs") (simp_all add: find_filter_hd)
qed

text \<open>The stable insertion sort ends with a greatest element.\<close>

lemma set_insert_sorted: "set (insert_sorted cmp x ys) = insert x (set ys)"
  by (induction ys) auto

lemma set_sort_with: "set (sort_with cmp xs) = set xs"
  by (induction xs) (auto simp: set_insert_sorted)

lemma insert_sorted_nonempty: "insert_sorted cmp x ys \<noteq> []"
  by (cases ys) auto

lemma last_insert_sorted:
  "last (insert_sorted cmp x ys) = (if list_all (\<lambda>y. \<not> cmp x y \<le> 0) ys then x else last ys)"
  by (induction ys) (auto simp: insert_sorted_nonempty)

lemma last_sort_with_greatest_in:
  fixes cmp :: "'a \<Rightarrow> 'a \<Rightarrow> int"
  assumes total: "\<forall>a\<in>S. \<forall>b\<in>S. cmp a b \<le> 0 \<or> cmp b a \<le> 0"
    and trans: "\<forall>a\<in>S. \<forall>b\<in>S. \<forall>c\<in>S. cmp a b \<le> 0 \<and> cmp b c \<le> 0 \<longrightarrow> cmp a c \<le> 0"
  shows "set xs \<subseteq> S \<Longrightarrow> xs \<noteq> [] \<Longrightarrow>
     last (sort_with cmp xs) \<in> set xs \<and> (\<forall>y\<in>set xs. cmp y (last (sort_with cmp xs)) \<le> 0)"
proof (induction xs)
  case Nil
  then show ?case by blast
next
  case (Cons x xs)
  have x_in: "x \<in> S" and xs_in: "set xs \<subseteq> S"
    using Cons.prems(1) by simp_all
  have xx: "cmp x x \<le> 0"
    using total x_in by blast
  have step: "sort_with cmp (x # xs) = insert_sorted cmp x (sort_with cmp xs)"
    by simp
  show ?case
  proof (cases "xs = []")
    case True
    have "sort_with cmp (x # xs) = [x]"
      unfolding True by simp
    then show ?thesis
      using xx True by simp
  next
    case False
    let ?m = "last (sort_with cmp xs)"
    have m_in: "?m \<in> set xs" and m_max: "\<forall>y\<in>set xs. cmp y ?m \<le> 0"
      using Cons.IH [OF xs_in False] by blast+
    show ?thesis
    proof (cases "list_all (\<lambda>y. \<not> cmp x y \<le> 0) (sort_with cmp xs)")
      case True
      then have above: "\<forall>y\<in>set xs. \<not> cmp x y \<le> 0"
        unfolding list_all_iff set_sort_with .
      have last_x: "last (sort_with cmp (x # xs)) = x"
        unfolding step last_insert_sorted using True by (rule if_P)
      have below: "\<forall>y\<in>set xs. cmp y x \<le> 0"
        using total above x_in xs_in by blast
      have "x \<in> set (x # xs)"
        by simp
      moreover have "\<forall>y\<in>set (x # xs). cmp y x \<le> 0"
        unfolding list.set using below xx by blast
      ultimately show ?thesis
        unfolding last_x by (rule conjI)
    next
      case False
      then obtain y where y: "y \<in> set xs" "cmp x y \<le> 0"
        unfolding list_all_iff set_sort_with by blast
      have last_m: "last (sort_with cmp (x # xs)) = ?m"
        unfolding step last_insert_sorted using False by (rule if_not_P)
      have "cmp y ?m \<le> 0"
        using m_max y(1) by blast
      then have xm: "cmp x ?m \<le> 0"
        using trans y m_in x_in xs_in by blast
      have "?m \<in> set (x # xs)"
        using m_in by simp
      moreover have "\<forall>y\<in>set (x # xs). cmp y ?m \<le> 0"
        unfolding list.set using m_max xm by blast
      ultimately show ?thesis
        unfolding last_m by (rule conjI)
    qed
  qed
qed

lemma sort_by_version_strings:
  assumes "\<forall>c\<in>set parsedFiles. is_string (version_p c)"
  shows "sort_by_version env parsedFiles =
     Inr (if length parsedFiles < 2 then parsedFiles
          else sort_with
                 (\<lambda>a b. localeCompare env (string_of (version_p a)) (string_of (version_p b)))
                 parsedFiles)"
  using assms by (simp add: sort_by_version_def list_all_iff)

lemma sort_with_short: "length xs < 2 \<Longrightarrow> sort_with cmp xs = xs"
  by (cases xs) (auto simp: less_Suc_eq)

subsection \<open>The claims about the lookup functions\<close>

text \<open>
  Claim C5.  When both patterns compile and every file of the list can be read,
  \<^verbatim>\<open>searchFilesForId(files, id, version?)\<close> returns exactly the files of the list whose
  content matches the id pattern and, when a version argument is supplied (a non-empty
  string, as the source tests it with \<^verbatim>\<open>version &&\<close>), also the version pattern; a file
  whose content does not match the version pattern is left out even if its id line matches.
  The result is a subsequence of the list: the files that are kept stay in their order.
\<close>

theorem searchFilesForId_subsequence:
  assumes "compile (idRegex_source id') = Inr idRegex"
    and "compile (versionRegex_source version) = Inr versionRegex"
    and "\<forall>file\<in>set files. readFile env file = Inr (content file)"
  shows "searchFilesForId env files id' version =
     Inr (filter (\<lambda>file. regex_test idRegex (content file)
                   \<and> (truthy version \<longrightarrow> regex_test versionRegex (content file))) files)
   \<and> subseq
        (filter (\<lambda>file. regex_test idRegex (content file)
                  \<and> (truthy version \<longrightarrow> regex_test versionRegex (content file))) files)
        files"
proof
  show "searchFilesForId env files id' version =
     Inr (filter (\<lambda>file. regex_test idRegex (content file)
                   \<and> (truthy version \<longrightarrow> regex_test versionRegex (content file))) files)"
    using assms by (rule searchFilesForId_filter)
next
  show "subseq
        (filter (\<lambda>file. regex_test idRegex (content file)
                  \<and> (truthy version \<longrightarrow> regex_test versionRegex (content file))) files)
        files"
    by (rule subseq_filter_left)
qed

theorem searchFilesForId_subsequence_witness:
  "searchFilesForId orders
     [''catalog/events/OrderPlaced/versioned/1.2.0/index.md'',
      ''catalog/events/OrderPlaced/index.md''] ''OrderPlaced'' (Some ''1.2.0'')
   = Inr [''catalog/events/OrderPlaced/versioned/1.2.0/index.md'']"
proof -
  have "\<not> isl (compile (versionRegex_source (Some ''1.2.0'')))"
    by code_simp
  then have v: "compile (versionRegex_source (Some ''1.2.0''))
      = Inr (projr (compile (versionRegex_source (Some ''1.2.0''))))"
    by simp
  have keep: "filter
       (\<lambda>file. regex_test (projr (compile (idRegex_source ''OrderPlaced'')))
                 (projr (readFile orders file))
              \<and> (truthy (Some ''1.2.0'') \<longrightarrow>
                   regex_test (projr (compile (versionRegex_source (Some ''1.2.0''))))
                     (projr (readFile orders file))))
       [''catalog/events/OrderPlaced/versioned/1.2.0/index.md'',
        ''catalog/events/OrderPlaced/index.md'']
     = [''catalog/events/OrderPlaced/versioned/1.2.0/index.md'']"
    by code_simp
  show ?thesis
    by (simp only:
          searchFilesForId_subsequence [OF OrderPlaced_idRegex v orders_readFile, THEN conjunct1]
          keep)
qed

text \<open>
  Claim C9.  The id argument reaches the pattern unescaped: with the id \<^verbatim>\<open>a.c\<close> the dot
  of the argument is the wildcard of the pattern, and \<^verbatim>\<open>searchFilesForId\<close> returns a file
  whose front matter has the line \<^verbatim>\<open>id: abc\<close>, an id other than the requested one.
\<close>

theorem searchFilesForId_unescaped_id:
  "searchFilesForId letters [''catalog/events/abc/index.md''] ''a.c'' None
     = Inr [''catalog/events/abc/index.md'']
   \<and> readFile letters ''catalog/events/abc/index.md''
     = Inr ''---\<newline>id: abc\<newline>version: 1.0.0\<newline>---\<newline>''
   \<and> id_d (projr (matter_read letters ''catalog/events/abc/index.md'')) = JString ''abc''
   \<and> ''abc'' \<noteq> ''a.c''"
  by code_simp

text \<open>
  Claim C1, as amended.  \<^verbatim>\<open>versionExists(catalogDir, id, version)\<close> compares text, not
  semver ranges: when the patterns compile and the files found under the catalog can be
  read, it returns true exactly when the content of some file matches the id pattern and
  (for a non-empty version argument) the version pattern made of the requested version as
  written, and false otherwise.
\<close>

theorem versionExists_textual:
  assumes "getFiles env (catalogDir @ ''/**/index.md'') = Inr files"
    and "compile (idRegex_source id') = Inr idRegex"
    and "compile (versionRegex_source (Some version)) = Inr versionRegex"
    and "\<forall>file\<in>set files. readFile env file = Inr (content file)"
  shows "versionExists env catalogDir id' version =
     Inr (\<exists>file\<in>set files. regex_test idRegex (content file)
            \<and> (version \<noteq> [] \<longrightarrow> regex_test versionRegex (content file)))"
proof -
  have "searchFilesForId env files id' (Some version) =
     Inr (filter (\<lambda>file. regex_test idRegex (content file)
                   \<and> (truthy (Some version) \<longrightarrow> regex_test versionRegex (content file))) files)"
    using assms(2-4) by (rule searchFilesForId_filter)
  then show ?thesis
    by (auto simp add: versionExists_def assms(1) filter_empty_conv)
qed

theorem versionExists_textual_witness:
  "versionExists orders ''catalog'' ''OrderPlaced'' ''1.2.0'' = Inr True"
proof -
  have "\<not> isl (compile (versionRegex_source (Some ''1.2.0'')))"
    by code_simp
  then have v: "compile (versionRegex_source (Some ''1.2.0''))
      = Inr (projr (compile (versionRegex_source (Some ''1.2.0''))))"
    by simp
  have found: "(\<exists>file\<in>set [''catalog/events/OrderPlaced/versioned/1.2.0/index.md'',
                            ''catalog/events/OrderPlaced/index.md''].
        regex_test (projr (compile (idRegex_source ''OrderPlaced''))) (projr (readFile orders file))
        \<and> (''1.2.0'' \<noteq> [] \<longrightarrow>
             regex_test (projr (compile (versionRegex_source (Some ''1.2.0''))))
               (projr (readFile orders file)))) = True"
    by code_simp
  have files: "getFiles orders (''catalog'' @ ''/**/index.md'')
     = Inr [''catalog/events/OrderPlaced/versioned/1.2.0/index.md'',
            ''catalog/events/OrderPlaced/index.md'']"
    using orders_getFiles by simp
  show ?thesis
    by (simp only: versionExists_textual [OF files OrderPlaced_idRegex v orders_readFile] found)
qed

text \<open>
  The claim as stated fails: the catalog holds a file with the front-matter id
  \<^verbatim>\<open>OrderPlaced\<close> and version \<^verbatim>\<open>1.2.0\<close>, which satisfies the range \<^verbatim>\<open>^1.0.0\<close>, and
  \<^verbatim>\<open>versionExists\<close> returns false for that range.
\<close>

theorem versionExists_range_counterexample:
  "getFiles orders ''catalog/**/index.md''
     = Inr [''catalog/events/OrderPlaced/versioned/1.2.0/index.md'',
            ''catalog/events/OrderPlaced/index.md'']
   \<and> matter_read orders ''catalog/events/OrderPlaced/versioned/1.2.0/index.md''
     = Inr \<lparr>id_d = JString ''OrderPlaced'', version_d = JString ''1.2.0''\<rparr>
   \<and> satisfies orders (JString ''1.2.0'') ''^1.0.0'' = Inr True
   \<and> versionExists orders ''catalog'' ''OrderPlaced'' ''^1.0.0'' = Inr False"
proof -
  have "satisfies orders (JString ''1.2.0'') ''^1.0.0'' = Inr True"
    by code_simp
  moreover have "versionExists orders ''catalog'' ''OrderPlaced'' ''^1.0.0'' = Inr False"
    by code_simp
  ultimately show ?thesis
    using orders_getFiles orders_matter_read by simp
qed

text \<open>
  Claim C3, as amended.  With no version argument, \<^verbatim>\<open>findFileById\<close> returns the first
  path of the candidate set, in input order, that does not contain the text
  \<^verbatim>\<open>versioned\<close> anywhere (as a substring, whether or not it is a whole path segment), and
  nothing when every candidate path contains it.
\<close>

theorem findFileById_latest:
  assumes "getFiles env (catalogDir @ ''/**/index.md'') = Inr files"
    and "searchFilesForId env files id' None = Inr matchedFiles"
  shows "findFileById env catalogDir id' None
     = Inr (find (\<lambda>path. \<not> sublist ''versioned'' path) matchedFiles)"
  using findFileById_resolve [OF assms, of None]
  by (simp add: resolve_def string_includes_sublist)

theorem findFileById_latest_witness:
  "findFileById orders ''catalog'' ''OrderPlaced'' None
     = Inr (Some ''catalog/events/OrderPlaced/index.md'')"
proof -
  have files: "getFiles orders (''catalog'' @ ''/**/index.md'')
     = Inr [''catalog/events/OrderPlaced/versioned/1.2.0/index.md'',
            ''catalog/events/OrderPlaced/index.md'']"
    using orders_getFiles by simp
  have first: "find (\<lambda>path. \<not> sublist ''versioned'' path)
       [''catalog/events/OrderPlaced/versioned/1.2.0/index.md'',
        ''catalog/events/OrderPlaced/index.md'']
     = Some ''catalog/events/OrderPlaced/index.md''"
    by code_simp
  show ?thesis
    by (simp only: findFileById_latest [OF files orders_candidates] first)
qed

text \<open>
  The claim as stated fails: the only candidate lies in the directory
  \<^verbatim>\<open>unversioned\<close>, no segment of its path is \<^verbatim>\<open>versioned\<close>, and \<^verbatim>\<open>findFileById\<close>
  returns nothing.
\<close>

theorem findFileById_segment_counterexample:
  "searchFilesForId pings [''catalog/unversioned/Ping/index.md''] ''Ping'' None
     = Inr [''catalog/unversioned/Ping/index.md'']
   \<and> \<not> has_path_segment ''catalog/unversioned/Ping/index.md'' ''versioned''
   \<and> findFileById pings ''catalog'' ''Ping'' None = Inr None"
  by code_simp

subsection \<open>The claims about the version argument of \<^verbatim>\<open>findFileById\<close>\<close>

text \<open>
  Claim C2, as amended.  When the version argument is both a valid semver range and a valid
  concrete semver version (such as \<^verbatim>\<open>1.2.0\<close>), \<^verbatim>\<open>findFileById\<close> returns the path of the
  first candidate, in input order, whose front-matter version satisfies the range, and
  nothing when there is none: against A with version 1.2.0 and B with version 2.0.0, the
  argument \<^verbatim>\<open>1.2.0\<close> returns the path of A.  The argument \<^verbatim>\<open>^1.0.0\<close> is a valid range
  but not a concrete version, so it takes the lexicographic fallback and returns the path
  of B.
\<close>

theorem findFileById_concrete_version:
  assumes files: "getFiles env (catalogDir @ ''/**/index.md'') = Inr files"
    and candidates: "searchFilesForId env files id' None = Inr matchedFiles"
    and version: "version \<noteq> []"
    and is_range: "validRange env version = Some semverRange" "semverRange \<noteq> []"
    and is_version: "valid env version = Some v" "v \<noteq> []"
    and front: "\<forall>path\<in>set matchedFiles. matter_read env path = Inr (front path)"
    and ok: "\<forall>path\<in>set matchedFiles.
           satisfies env (version_d (front path)) semverRange = Inr (ok path)"
  shows "findFileById env catalogDir id' (Some version) = Inr (find ok matchedFiles)"
proof -
  let ?parsed = "map (\<lambda>path. \<lparr>version_p = version_d (front path), path_p = path\<rparr>) matchedFiles"
  have parsed: "map_throwing (parse_file env) matchedFiles = Inr ?parsed"
    using front by (rule parsedFiles_map)
  have "\<forall>c\<in>set ?parsed. satisfies_range env semverRange c = Inr (ok (path_p c))"
    using ok by (simp add: satisfies_range_def)
  then have match: "filter_throwing (satisfies_range env semverRange) ?parsed
      = Inr (filter (\<lambda>c. ok (path_p c)) ?parsed)"
    by (rule filter_throwing_filter)
  have first: "(if length (filter (\<lambda>c. ok (path_p c)) ?parsed) > 0
                then Some (path_p (hd (filter (\<lambda>c. ok (path_p c)) ?parsed))) else None)
      = find ok matchedFiles"
    by (rule first_match_find)
  have "resolve env matchedFiles (Some version)
      = Inr (if length (filter (\<lambda>c. ok (path_p c)) ?parsed) > 0
             then Some (path_p (hd (filter (\<lambda>c. ok (path_p c)) ?parsed))) else None)"
    unfolding resolve_def Let_def
    by (simp add: version is_range is_version parsed match del: length_greater_0_conv)
  then show ?thesis
    unfolding findFileById_resolve [OF files candidates] first .
qed

theorem findFileById_concrete_version_witness:
  "findFileById orders ''catalog'' ''OrderPlaced'' (Some ''1.2.0'')
     = Inr (Some ''catalog/events/OrderPlaced/versioned/1.2.0/index.md'')"
proof -
  let ?front = "\<lambda>path. projr (matter_read orders path)"
  let ?ok = "\<lambda>path. projr (satisfies orders (version_d (?front path)) ''1.2.0'')"
  have files: "getFiles orders (''catalog'' @ ''/**/index.md'')
     = Inr [''catalog/events/OrderPlaced/versioned/1.2.0/index.md'',
            ''catalog/events/OrderPlaced/index.md'']"
    using orders_getFiles by simp
  have version: "''1.2.0'' \<noteq> []"
    by simp
  have range: "validRange orders ''1.2.0'' = Some ''1.2.0''"
    by code_simp
  have valid: "valid orders ''1.2.0'' = Some ''1.2.0''"
    by code_simp
  have front: "\<forall>path\<in>set [''catalog/events/OrderPlaced/versioned/1.2.0/index.md'',
                             ''catalog/events/OrderPlaced/index.md''].
      matter_read orders path = Inr (?front path)"
    using orders_matter_read by simp
  have "\<forall>path\<in>set [''catalog/events/OrderPlaced/versioned/1.2.0/index.md'',
                       ''catalog/events/OrderPlaced/index.md''].
      \<not> isl (satisfies orders (version_d (?front path)) ''1.2.0'')"
    by code_simp
  then have ok: "\<forall>path\<in>set [''catalog/events/OrderPlaced/versioned/1.2.0/index.md'',
                              ''catalog/events/OrderPlaced/index.md''].
      satisfies orders (version_d (?front path)) ''1.2.0'' = Inr (?ok path)"
    by simp
  have first: "find ?ok [''catalog/events/OrderPlaced/versioned/1.2.0/index.md'',
                        ''catalog/events/OrderPlaced/index.md'']
     = Some ''catalog/events/OrderPlaced/versioned/1.2.0/index.md''"
    by code_simp
  show ?thesis
    by (simp only: findFileById_concrete_version
          [OF files orders_candidates version range version valid version front ok] first)
qed

text \<open>
  The claim as stated fails: the candidates are A with version 1.2.0, which satisfies
  \<^verbatim>\<open>^1.0.0\<close>, and B with version 2.0.0, which does not, and \<^verbatim>\<open>findFileById\<close> with the
  version argument \<^verbatim>\<open>^1.0.0\<close> returns the path of B.
\<close>

theorem findFileById_caret_counterexample:
  "searchFilesForId orders
     [''catalog/events/OrderPlaced/versioned/1.2.0/index.md'',
      ''catalog/events/OrderPlaced/index.md''] ''OrderPlaced'' None
     = Inr [''catalog/events/OrderPlaced/versioned/1.2.0/index.md'',
            ''catalog/events/OrderPlaced/index.md'']
   \<and> version_d (projr (matter_read orders ''catalog/events/OrderPlaced/versioned/1.2.0/index.md''))
     = JString ''1.2.0''
   \<and> version_d (projr (matter_read orders ''catalog/events/OrderPlaced/index.md''))
     = JString ''2.0.0''
   \<and> satisfies orders (JString ''1.2.0'') ''^1.0.0'' = Inr True
   \<and> satisfies orders (JString ''2.0.0'') ''^1.0.0'' = Inr False
   \<and> truthy (validRange orders ''^1.0.0'')
   \<and> valid orders ''^1.0.0'' = None
   \<and> findFileById orders ''catalog'' ''OrderPlaced'' (Some ''^1.0.0'')
     = Inr (Some ''catalog/events/OrderPlaced/index.md'')"
  by code_simp

text \<open>
  Claim C4.  When a version argument is supplied (a non-empty string) that is not both a
  valid semver range and a valid concrete semver version, and every candidate has a string
  as its front-matter version, \<^verbatim>\<open>findFileById\<close> returns the path of a candidate whose
  version is greatest in the order of \<^verbatim>\<open>localeCompare\<close> (the order in which the candidates
  are sorted ascending before the last one is taken), and nothing when the candidate set is
  empty.  The comparison is taken to be an order on the versions at hand: any two can be
  compared, and the comparison is transitive.  With the argument \<^verbatim>\<open>latest-draft\<close> against
  the versions \<^verbatim>\<open>a-draft\<close> of A and \<^verbatim>\<open>b-draft\<close> of B, the result is the path of B.
\<close>

theorem findFileById_fallback:
  assumes files: "getFiles env (catalogDir @ ''/**/index.md'') = Inr files"
    and candidates: "searchFilesForId env files id' None = Inr matchedFiles"
    and version: "version \<noteq> []"
    and not_both: "\<not> (truthy (validRange env version) \<and> truthy (valid env version))"
    and front: "\<forall>path\<in>set matchedFiles.
           matter_read env path = Inr (front path) \<and> version_d (front path) = JString (ver path)"
    and total: "\<forall>p\<in>set matchedFiles. \<forall>q\<in>set matchedFiles.
           localeCompare env (ver p) (ver q) \<le> 0 \<or> localeCompare env (ver q) (ver p) \<le> 0"
    and trans: "\<forall>p\<in>set matchedFiles. \<forall>q\<in>set matchedFiles. \<forall>r\<in>set matchedFiles.
           localeCompare env (ver p) (ver q) \<le> 0 \<and> localeCompare env (ver q) (ver r) \<le> 0
           \<longrightarrow> localeCompare env (ver p) (ver r) \<le> 0"
  shows "(matchedFiles = [] \<longrightarrow> findFileById env catalogDir id' (Some version) = Inr None)
     \<and> (matchedFiles \<noteq> [] \<longrightarrow>
          (\<exists>p\<in>set matchedFiles.
              findFileById env catalogDir id' (Some version) = Inr (Some p)
              \<and> (\<forall>q\<in>set matchedFiles. localeCompare env (ver q) (ver p) \<le> 0)))"
proof -
  let ?mk = "\<lambda>path. \<lparr>version_p = JString (ver path), path_p = path\<rparr>"
  let ?parsed = "map ?mk matchedFiles"
  let ?cmp = "\<lambda>a b. localeCompare env (string_of (version_p a)) (string_of (version_p b))"
  let ?sorted = "sort_with ?cmp ?parsed"
  have "map_throwing (parse_file env) matchedFiles
      = Inr (map (\<lambda>path. \<lparr>version_p = version_d (front path), path_p = path\<rparr>) matchedFiles)"
    using front by (intro parsedFiles_map) blast
  moreover have "map (\<lambda>path. \<lparr>version_p = version_d (front path), path_p = path\<rparr>) matchedFiles
      = ?parsed"
    using front by (intro map_cong) simp_all
  ultimately have parsed: "map_throwing (parse_file env) matchedFiles = Inr ?parsed"
    by simp
  have "\<forall>c\<in>set ?parsed. is_string (version_p c)"
    by simp
  then have "sort_by_version env ?parsed
      = Inr (if length ?parsed < 2 then ?parsed else ?sorted)"
    by (rule sort_by_version_strings)
  then have sorted: "sort_by_version env ?parsed = Inr ?sorted"
    by (simp add: sort_with_short)
  have fallback: "(truthy (validRange env version) \<and> truthy (valid env version)) = False"
    using not_both by simp
  have "resolve env matchedFiles (Some version)
      = Inr (if length ?sorted > 0 then Some (path_p (last ?sorted)) else None)"
    unfolding resolve_def Let_def
    by (simp add: version fallback parsed sorted del: length_greater_0_conv)
  then have resolve: "findFileById env catalogDir id' (Some version)
      = Inr (if length ?sorted > 0 then Some (path_p (last ?sorted)) else None)"
    unfolding findFileById_resolve [OF files candidates] .
  show ?thesis
  proof (intro conjI impI)
    assume "matchedFiles = []"
    then show "findFileById env catalogDir id' (Some version) = Inr None"
      unfolding resolve by simp
  next
    assume nonempty: "matchedFiles \<noteq> []"
    define S where "S = set ?parsed"
    have total': "\<forall>a\<in>S. \<forall>b\<in>S. ?cmp a b \<le> 0 \<or> ?cmp b a \<le> 0"
    proof (intro ballI)
      fix a b assume "a \<in> S" "b \<in> S"
      then obtain p q where pq: "p \<in> set matchedFiles" "a = ?mk p" "q \<in> set matchedFiles" "b = ?mk q"
        unfolding S_def by auto
      have "localeCompare env (ver p) (ver q) \<le> 0 \<or> localeCompare env (ver q) (ver p) \<le> 0"
        using total pq(1,3) by blast
      then show "?cmp a b \<le> 0 \<or> ?cmp b a \<le> 0"
        unfolding pq(2,4) by simp
    qed
    have trans': "\<forall>a\<in>S. \<forall>b\<in>S. \<forall>c\<in>S. ?cmp a b \<le> 0 \<and> ?cmp b c \<le> 0 \<longrightarrow> ?cmp a c \<le> 0"
    proof (intro ballI)
      fix a b c assume "a \<in> S" "b \<in> S" "c \<in> S"
      then obtain p q r where pqr:
        "p \<in> set matchedFiles" "a = ?mk p" "q \<in> set matchedFiles" "b = ?mk q"
        "r \<in> set matchedFiles" "c = ?mk r"
        unfolding S_def by auto
      have "localeCompare env (ver p) (ver q) \<le> 0 \<and> localeCompare env (ver q) (ver r) \<le> 0
            \<longrightarrow> localeCompare env (ver p) (ver r) \<le> 0"
        using trans pqr(1,3,5) by blast
      then show "?cmp a b \<le> 0 \<and> ?cmp b c \<le> 0 \<longrightarrow> ?cmp a c \<le> 0"
        unfolding pqr(2,4,6) by simp
    qed
    have "set ?parsed \<subseteq> S"
      unfolding S_def by (rule subset_refl)
    moreover have nonempty': "?parsed \<noteq> []"
      using nonempty by simp
    ultimately have greatest: "last ?sorted \<in> set ?parsed
        \<and> (\<forall>y\<in>set ?parsed. ?cmp y (last ?sorted) \<le> 0)"
      by (rule last_sort_with_greatest_in [OF total' trans'])
    then obtain p where p: "p \<in> set matchedFiles" "last ?sorted = ?mk p"
      by auto
    have "?sorted \<noteq> []"
    proof
      assume "?sorted = []"
      then have "set ?sorted = {}"
        by simp
      then have "set ?parsed = {}"
        unfolding set_sort_with .
      then show False
        using nonempty' by simp
    qed
    then have "findFileById env catalogDir id' (Some version) = Inr (Some p)"
      unfolding resolve p(2) by simp
    moreover have "\<forall>q\<in>set matchedFiles. localeCompare env (ver q) (ver p) \<le> 0"
    proof
      fix q assume "q \<in> set matchedFiles"
      then have "?mk q \<in> set ?parsed"
        by simp
      then have "?cmp (?mk q) (last ?sorted) \<le> 0"
        using greatest by blast
      then show "localeCompare env (ver q) (ver p) \<le> 0"
        unfolding p(2) by simp
    qed
    ultimately show "\<exists>p\<in>set matchedFiles.
        findFileById env catalogDir id' (Some version) = Inr (Some p)
        \<and> (\<forall>q\<in>set matchedFiles. localeCompare env (ver q) (ver p) \<le> 0)"
      using p(1) by blast
  qed
qed

theorem findFileById_fallback_witness:
  "findFileById drafts ''catalog'' ''Draft'' (Some ''latest-draft'')
     = Inr (Some ''catalog/events/Draft/index.md'')"
proof -
  let ?B = "''catalog/events/Draft/index.md''"
  let ?A = "''catalog/events/Draft/versioned/a-draft/index.md''"
  let ?front = "\<lambda>path. projr (matter_read drafts path)"
  let ?ver = "\<lambda>path. string_of (version_d (?front path))"
  let ?result = "findFileById drafts ''catalog'' ''Draft'' (Some ''latest-draft'')"
  have files: "getFiles drafts (''catalog'' @ ''/**/index.md'') = Inr [?B, ?A]"
    by (simp add: getFiles_def drafts_def catalog_def)
  have candidates: "searchFilesForId drafts [?B, ?A] ''Draft'' None = Inr [?B, ?A]"
    by code_simp
  have version: "''latest-draft'' \<noteq> []"
    by simp
  have not_both: "\<not> (truthy (validRange drafts ''latest-draft'')
                    \<and> truthy (valid drafts ''latest-draft''))"
    by code_simp
  have front: "\<forall>path\<in>set [?B, ?A].
      matter_read drafts path = Inr (?front path) \<and> version_d (?front path) = JString (?ver path)"
    by (simp add: drafts_def catalog_def index_md_def)
  have total: "\<forall>p\<in>set [?B, ?A]. \<forall>q\<in>set [?B, ?A].
      localeCompare drafts (?ver p) (?ver q) \<le> 0 \<or> localeCompare drafts (?ver q) (?ver p) \<le> 0"
    by code_simp
  have trans: "\<forall>p\<in>set [?B, ?A]. \<forall>q\<in>set [?B, ?A]. \<forall>r\<in>set [?B, ?A].
      localeCompare drafts (?ver p) (?ver q) \<le> 0 \<and> localeCompare drafts (?ver q) (?ver r) \<le> 0
      \<longrightarrow> localeCompare drafts (?ver p) (?ver r) \<le> 0"
    by code_simp
  have b_above_a: "\<not> localeCompare drafts (?ver ?B) (?ver ?A) \<le> 0"
    by code_simp
  have "[?B, ?A] \<noteq> []"
    by simp
  with findFileById_fallback [OF files candidates version not_both front total trans]
  obtain p where p: "p \<in> set [?B, ?A]" "?result = Inr (Some p)"
    "\<forall>q\<in>set [?B, ?A]. localeCompare drafts (?ver q) (?ver p) \<le> 0"
    by blast
  have "p \<noteq> ?A"
  proof
    assume "p = ?A"
    then have "localeCompare drafts (?ver ?B) (?ver ?A) \<le> 0"
      using p(3) by (simp only: list.set ball_simps insert_iff simp_thms)
    then show False
      using b_above_a by blast
  qed
  then have "p = ?B"
    using p(1) by simp
  then show ?thesis
    using p(2) by simp
qed

subsection \<open>Properties of the file-system operations\<close>

lemma strip_prefix_Some_iff: "strip_prefix a q = Some rel \<longleftrightarrow> q = a @ rel"
  by (induction a q rule: strip_prefix.induct) auto

lemma strip_prefix_append: "strip_prefix a (a @ rel) = Some rel"
  by (simp add: strip_prefix_Some_iff)

lemma strip_prefix_None: "\<not> prefix a q \<Longrightarrow> strip_prefix a q = None"
proof (cases "strip_prefix a q")
  case None
  then show ?thesis by simp
next
  case (Some rel)
  assume "\<not> prefix a q"
  moreover have "q = a @ rel"
    using Some by (simp add: strip_prefix_Some_iff)
  ultimately show ?thesis by simp
qed

lemma not_prefix_append:
  assumes "\<not> prefix a b" and "\<not> prefix b a"
  shows "\<not> prefix a (b @ rel)"
proof
  assume "prefix a (b @ rel)"
  then have "prefix a b \<or> (\<exists>us. a = b @ us \<and> prefix us rel)"
    by (simp add: prefix_append)
  then show False
    using assms by auto
qed

lemma prefix_append_left: "prefix (a @ rel) b \<Longrightarrow> prefix a b"
  by (auto simp: prefix_def)

lemma prefix_butlast_imp: "prefix q (butlast d) \<Longrightarrow> prefix q d"
  using prefix_order.trans prefixeq_butlast by blast

lemma not_prefix_butlast_self: "d \<noteq> [] \<Longrightarrow> \<not> prefix (d @ rel) (butlast d)"
proof
  assume "d \<noteq> []" and "prefix (d @ rel) (butlast d)"
  then have "length (d @ rel) \<le> length (butlast d)"
    by (simp only: prefix_length_le)
  then have "length d + length rel \<le> length d - 1"
    by (simp only: length_append length_butlast)
  moreover have "0 < length d"
    using \<open>d \<noteq> []\<close> by simp
  ultimately show False
    by arith
qed

lemma map_of_keys_const:
  "map_of (map (\<lambda>q. (q, v)) ks) q = (if q \<in> set ks then Some v else None)"
  by (induction ks) auto

lemma mkdir_lookup:
  assumes "mkdir_recursive dir fs = Inr fs1"
  shows "lookup fs1 q =
     (if prefix q dir \<and> lookup fs q = None then Some Directory else lookup fs q)"
proof -
  have "fs1 = map (\<lambda>q. (q, Directory)) (filter (\<lambda>q. lookup fs q = None) (prefixes dir)) @ fs"
    using assms by (simp add: mkdir_recursive_def split: if_splits)
  then show ?thesis
    by (simp add: lookup_def map_add_def map_of_keys_const in_set_prefixes split: option.splits)
qed

lemma mkdir_lookup_outside:
  "mkdir_recursive dir fs = Inr fs1 \<Longrightarrow> \<not> prefix q dir \<Longrightarrow> lookup fs1 q = lookup fs q"
  by (simp add: mkdir_lookup)

lemma map_of_entries:
  "map_of (List.map_filter
             (\<lambda>q. case strip_prefix src q of
                     None \<Rightarrow> None
                   | Some rel \<Rightarrow> map_option (\<lambda>e. (rel, e)) (lookup fs q)) ks) rel
   = (if src @ rel \<in> set ks then lookup fs (src @ rel) else None)"
proof (induction ks)
  case Nil
  show ?case by (simp add: map_filter_simps)
next
  case (Cons k ks)
  show ?case
  proof (cases "strip_prefix src k")
    case None
    then have "k \<noteq> src @ rel"
      using strip_prefix_append [of src rel] by auto
    with None Cons.IH show ?thesis
      by (simp add: map_filter_simps)
  next
    case (Some rel')
    then have k: "k = src @ rel'"
      by (simp add: strip_prefix_Some_iff)
    show ?thesis
    proof (cases "lookup fs k")
      case None
      with Some Cons.IH k show ?thesis
        by (auto simp add: map_filter_simps)
    next
      case (Some e)
      with \<open>strip_prefix src k = Some rel'\<close> Cons.IH k show ?thesis
        by (auto simp add: map_filter_simps)
    qed
  qed
qed

lemma entries_under_lookup: "map_of (entries_under src fs) rel = lookup fs (src @ rel)"
proof -
  have "src @ rel \<in> set (map fst fs) \<longleftrightarrow> lookup fs (src @ rel) \<noteq> None"
    unfolding lookup_def by (simp add: map_of_eq_None_iff)
  then show ?thesis
    unfolding entries_under_def map_of_entries by auto
qed

lemma map_of_relocated:
  "map_of (map (\<lambda>(rel, e). (dest @ rel, e)) es) q
   = (case strip_prefix dest q of None \<Rightarrow> None | Some rel \<Rightarrow> map_of es rel)"
proof (induction es)
  case Nil
  show ?case by (simp split: option.splits)
next
  case (Cons x es)
  obtain rel e where x: "x = (rel, e)"
    by (cases x)
  show ?case
  proof (cases "strip_prefix dest q")
    case None
    then have "q \<noteq> dest @ rel"
      using strip_prefix_append [of dest rel] by auto
    with None Cons.IH x show ?thesis by simp
  next
    case (Some rel')
    then have "q = dest @ rel'"
      by (simp add: strip_prefix_Some_iff)
    with Some Cons.IH x show ?thesis by simp
  qed
qed

lemma copy_unfiltered:
  assumes "copy src dest None fs = Inr fs2"
  obtains e fs1 where "lookup fs src = Some e" "\<not> conflicts e (lookup fs dest)"
    "mkdir_recursive (butlast dest) fs = Inr fs1"
    "fs2 = map (\<lambda>(rel, e). (dest @ rel, e)) (entries_under src fs) @ fs1"
  using assms
  by (auto simp: copy_def included_def Let_def split: option.splits if_splits sum.splits)

lemma copy_lookup_below:
  assumes "copy src dest None fs = Inr fs2" and "dest \<noteq> []"
  shows "lookup fs2 (dest @ rel) =
     (case lookup fs (src @ rel) of Some e \<Rightarrow> Some e | None \<Rightarrow> lookup fs (dest @ rel))"
proof -
  from assms(1) obtain e fs1 where
    fs1: "mkdir_recursive (butlast dest) fs = Inr fs1"
    and fs2: "fs2 = map (\<lambda>(rel, e). (dest @ rel, e)) (entries_under src fs) @ fs1"
    by (rule copy_unfiltered)
  have "lookup fs1 (dest @ rel) = lookup fs (dest @ rel)"
    using fs1 not_prefix_butlast_self [OF assms(2)] by (rule mkdir_lookup_outside)
  then show ?thesis
    unfolding fs2 lookup_def
    by (simp add: map_add_def map_of_relocated strip_prefix_append
          entries_under_lookup [unfolded lookup_def] split: option.splits)
qed

lemma copy_lookup_outside:
  assumes "copy src dest None fs = Inr fs2"
    and "\<not> prefix dest q" and "\<not> prefix q (butlast dest)"
  shows "lookup fs2 q = lookup fs q"
proof -
  from assms(1) obtain e fs1 where
    fs1: "mkdir_recursive (butlast dest) fs = Inr fs1"
    and fs2: "fs2 = map (\<lambda>(rel, e). (dest @ rel, e)) (entries_under src fs) @ fs1"
    by (rule copy_unfiltered)
  have "lookup fs1 q = lookup fs q"
    using fs1 assms(3) by (rule mkdir_lookup_outside)
  then show ?thesis
    unfolding fs2 lookup_def
    by (simp add: map_add_def map_of_relocated strip_prefix_None [OF assms(2)])
qed

lemma map_of_filter_keys:
  "map_of (filter (\<lambda>(q, e). P q) fs) q = (if P q then map_of fs q else None)"
  by (induction fs) auto

lemma rm_lookup:
  assumes "rm_recursive p fs = Inr fs'"
  shows "lookup fs' q = (if prefix p q then None else lookup fs q)"
proof -
  have "fs' = filter (\<lambda>(q, e). \<not> prefix p q) fs"
    using assms by (simp add: rm_recursive_def split: if_splits)
  then show ?thesis
    by (simp add: lookup_def map_of_filter_keys)
qed

lemma copyDir_steps:
  assumes "copyDir catalogDir source target None fs = Inr fs'"
  obtains fs1 fs2 fs3 where
    "mkdir_recursive (join catalogDir ''tmp'') fs = Inr fs1"
    "copy source (join catalogDir ''tmp'') None fs1 = Inr fs2"
    "copy (join catalogDir ''tmp'') target None fs2 = Inr fs3"
    "rm_recursive (join catalogDir ''tmp'') fs3 = Inr fs'"
  using assms by (auto simp: copyDir_def Let_def split: sum.splits)

text \<open>
  Claim C8, as amended.  For every successful call \<^verbatim>\<open>copyDir(catalogDir, source, target)\<close>
  with no filter in which nothing exists at the target or at the staging directory
  \<^verbatim>\<open>catalogDir/tmp\<close> beforehand, and the source, the target and the staging directory lie
  apart from one another, on completion the tree at the target is identical to the tree at
  the source (which the call leaves as it was) and nothing exists at the staging directory.
\<close>

theorem copyDir_round_trip:
  assumes ok: "copyDir catalogDir source target None fs = Inr fs'"
    and target_new: "\<forall>rel. lookup fs (target @ rel) = None"
    and staging_new: "\<forall>rel. lookup fs (join catalogDir ''tmp'' @ rel) = None"
    and st: "apart source target"
    and sm: "apart source (join catalogDir ''tmp'')"
    and tm: "apart target (join catalogDir ''tmp'')"
  shows "subtree fs' target = subtree fs source
     \<and> subtree fs' source = subtree fs source
     \<and> subtree fs' (join catalogDir ''tmp'') = (\<lambda>rel. None)"
proof -
  define tmp where "tmp = join catalogDir ''tmp''"
  have tmp_nonempty: "tmp \<noteq> []" and tmp_parent: "butlast tmp = catalogDir"
    unfolding tmp_def join_def by simp_all
  have target_nonempty: "target \<noteq> []"
    using st unfolding apart_def by auto
  have sep:
    "\<not> prefix source target" "\<not> prefix target source"
    "\<not> prefix source tmp" "\<not> prefix tmp source"
    "\<not> prefix target tmp" "\<not> prefix tmp target"
    using st sm tm unfolding apart_def tmp_def by simp_all
  from ok obtain fs1 fs2 fs3 where
    mk: "mkdir_recursive tmp fs = Inr fs1"
    and c1: "copy source tmp None fs1 = Inr fs2"
    and c2: "copy tmp target None fs2 = Inr fs3"
    and rm: "rm_recursive tmp fs3 = Inr fs'"
    unfolding tmp_def by (rule copyDir_steps)
  \<comment> \<open>after the staging directory is made\<close>
  have s1: "lookup fs1 (source @ r) = lookup fs (source @ r)" for r
    using mk sep(3) prefix_append_left by (intro mkdir_lookup_outside) blast+
  have t1: "lookup fs1 (target @ r) = None" for r
  proof -
    have "lookup fs1 (target @ r) = lookup fs (target @ r)"
      using mk sep(5) prefix_append_left by (intro mkdir_lookup_outside) blast+
    then show ?thesis
      using target_new by simp
  qed
  have m1: "lookup fs1 (tmp @ r) = (if r = [] then Some Directory else None)" for r
    using staging_new unfolding tmp_def [symmetric]
    by (simp add: mkdir_lookup [OF mk])
  \<comment> \<open>the source is a directory, since it is copied over the staging directory\<close>
  from c1 obtain e where e: "lookup fs1 source = Some e" "\<not> conflicts e (lookup fs1 tmp)"
    by (rule copy_unfiltered)
  have "lookup fs1 tmp = Some Directory"
    using m1 [of "[]"] by simp
  then have "is_directory e"
    using e(2) by simp
  then have "e = Directory"
    by (cases e) simp_all
  then have source_dir: "lookup fs source = Some Directory"
    using e(1) s1 [of "[]"] by simp
  \<comment> \<open>after the copy into the staging directory\<close>
  have m2: "lookup fs2 (tmp @ r) = lookup fs (source @ r)" for r
  proof (cases "r = []")
    case True
    then show ?thesis
      using source_dir copy_lookup_below [OF c1 tmp_nonempty, of "[]"] s1 [of "[]"] by simp
  next
    case False
    then show ?thesis
      by (simp add: copy_lookup_below [OF c1 tmp_nonempty] s1 m1 split: option.splits)
  qed
  have s2: "lookup fs2 (source @ r) = lookup fs (source @ r)" for r
  proof -
    have "\<not> prefix tmp (source @ r)"
      using sep(3,4) by (intro not_prefix_append)
    moreover have "\<not> prefix (source @ r) (butlast tmp)"
      using sep(3) prefix_append_left prefix_butlast_imp by blast
    ultimately have "lookup fs2 (source @ r) = lookup fs1 (source @ r)"
      by (rule copy_lookup_outside [OF c1])
    then show ?thesis
      by (simp add: s1)
  qed
  have t2: "lookup fs2 (target @ r) = None" for r
  proof -
    have "\<not> prefix tmp (target @ r)"
      using sep(5,6) by (intro not_prefix_append)
    moreover have "\<not> prefix (target @ r) (butlast tmp)"
      using sep(5) prefix_append_left prefix_butlast_imp by blast
    ultimately have "lookup fs2 (target @ r) = lookup fs1 (target @ r)"
      by (rule copy_lookup_outside [OF c1])
    then show ?thesis
      by (simp add: t1)
  qed
  \<comment> \<open>after the copy into the target\<close>
  have t3: "lookup fs3 (target @ r) = lookup fs (source @ r)" for r
    by (simp add: copy_lookup_below [OF c2 target_nonempty] m2 t2 split: option.splits)
  have s3: "lookup fs3 (source @ r) = lookup fs (source @ r)" for r
  proof -
    have "\<not> prefix target (source @ r)"
      using sep(1,2) by (intro not_prefix_append)
    moreover have "\<not> prefix (source @ r) (butlast target)"
      using sep(1) prefix_append_left prefix_butlast_imp by blast
    ultimately have "lookup fs3 (source @ r) = lookup fs2 (source @ r)"
      by (rule copy_lookup_outside [OF c2])
    then show ?thesis
      by (simp add: s2)
  qed
  \<comment> \<open>after the staging directory is removed\<close>
  have target_tree: "lookup fs' (target @ r) = lookup fs (source @ r)" for r
  proof -
    have "\<not> prefix tmp (target @ r)"
      using sep(5,6) by (intro not_prefix_append)
    then show ?thesis
      by (simp add: rm_lookup [OF rm] t3)
  qed
  have source_tree: "lookup fs' (source @ r) = lookup fs (source @ r)" for r
  proof -
    have "\<not> prefix tmp (source @ r)"
      using sep(3,4) by (intro not_prefix_append)
    then show ?thesis
      by (simp add: rm_lookup [OF rm] s3)
  qed
  have staging_gone: "lookup fs' (tmp @ r) = None" for r
    by (simp add: rm_lookup [OF rm])
  show ?thesis
    unfolding tmp_def [symmetric]
    by (intro conjI ext) (simp_all add: subtree_def target_tree source_tree staging_gone)
qed

theorem copyDir_round_trip_witness:
  "\<not> isl (copyDir [''cat''] [''src''] [''out''] None fresh_disk)
   \<and> subtree (projr (copyDir [''cat''] [''src''] [''out''] None fresh_disk)) [''out'']
     = subtree fresh_disk [''src'']
   \<and> subtree (projr (copyDir [''cat''] [''src''] [''out''] None fresh_disk)) [''src'']
     = subtree fresh_disk [''src'']
   \<and> subtree (projr (copyDir [''cat''] [''src''] [''out''] None fresh_disk)) (join [''cat''] ''tmp'')
     = (\<lambda>rel. None)"
proof -
  have succeeded: "\<not> isl (copyDir [''cat''] [''src''] [''out''] None fresh_disk)"
    by code_simp
  then have ok: "copyDir [''cat''] [''src''] [''out''] None fresh_disk
      = Inr (projr (copyDir [''cat''] [''src''] [''out''] None fresh_disk))"
    by simp
  have target_new: "\<forall>rel. lookup fresh_disk ([''out''] @ rel) = None"
    by (simp add: lookup_def fresh_disk_def)
  have staging_new: "\<forall>rel. lookup fresh_disk (join [''cat''] ''tmp'' @ rel) = None"
    by (simp add: lookup_def fresh_disk_def join_def)
  have st: "apart [''src''] [''out'']"
    by (simp add: apart_def)
  have sm: "apart [''src''] (join [''cat''] ''tmp'')"
    by (simp add: apart_def join_def)
  have tm: "apart [''out''] (join [''cat''] ''tmp'')"
    by (simp add: apart_def join_def)
  show ?thesis
    using succeeded copyDir_round_trip [OF ok target_new staging_new st sm tm] by (rule conjI)
qed

text \<open>
  The claim as stated fails: the target directory holds a file \<^verbatim>\<open>old.md\<close> before the
  call, the call succeeds, and afterwards the target still holds that file, which the
  source does not.
\<close>

theorem copyDir_existing_target_counterexample:
  "\<not> isl (copyDir [''cat''] [''src''] [''out''] None disk)
   \<and> subtree (projr (copyDir [''cat''] [''src''] [''out''] None disk)) [''out''] [''old.md'']
     = Some (File ''OLD'')
   \<and> subtree disk [''src''] [''old.md''] = None"
  by code_simp

end
